theory Spec2Isabelle
  imports Complex_Main
begin

section \<open>JavaScript values\<close>

text \<open>
  A JavaScript Number is a finite double, NaN or one of the two infinities. A finite
  double is read as the real number it denotes; comparisons of doubles are exact, so
  greater-than, less-or-equal and strict equality on this type are the ones of the language
  (the two zeros compare equal there as well).
\<close>

datatype jsnum = Fin real | NaN | PInf | NInf

text \<open>The attribute values of the data JSON: what a node, edge or pattern array holds.\<close>

datatype jsval =
    JUndefined
  | JNull
  | JBool bool
  | JNum jsnum
  | JStr string
  | JArr "jsval list"

text \<open>\<open>a > b\<close> on Numbers.\<close>

fun js_gt :: "jsnum \<Rightarrow> jsnum \<Rightarrow> bool" where
  "js_gt (Fin a) (Fin b) = (a > b)"
| "js_gt NaN _ = False"
| "js_gt _ NaN = False"
| "js_gt PInf PInf = False"
| "js_gt PInf _ = True"
| "js_gt NInf _ = False"
| "js_gt (Fin a) PInf = False"
| "js_gt (Fin a) NInf = True"

text \<open>\<open>a <= b\<close> on Numbers.\<close>

fun js_le :: "jsnum \<Rightarrow> jsnum \<Rightarrow> bool" where
  "js_le (Fin a) (Fin b) = (a \<le> b)"
| "js_le NaN _ = False"
| "js_le _ NaN = False"
| "js_le NInf _ = True"
| "js_le PInf PInf = True"
| "js_le PInf _ = False"
| "js_le (Fin a) PInf = True"
| "js_le (Fin a) NInf = False"

text \<open>\<open>a === b\<close> on Numbers: NaN is equal to nothing, itself included.\<close>

fun js_seq :: "jsnum \<Rightarrow> jsnum \<Rightarrow> bool" where
  "js_seq NaN _ = False"
| "js_seq _ NaN = False"
| "js_seq a b = (a = b)"

text \<open>\<open>Number.isInteger(x)\<close>: a finite Number with no fractional part.\<close>

fun isInteger :: "jsnum \<Rightarrow> bool" where
  "isInteger (Fin a) = (a = of_int \<lfloor>a\<rfloor>)"
| "isInteger _ = False"

text \<open>\<open>v === n\<close> for an attribute value and a Number: false unless \<open>v\<close> is a Number.\<close>

fun strict_eq_num :: "jsval \<Rightarrow> jsnum \<Rightarrow> bool" where
  "strict_eq_num (JNum a) n = js_seq a n"
| "strict_eq_num _ n = False"

text \<open>\<open>arr[i]\<close>: reading past the end of an Array gives \<open>undefined\<close>.\<close>

definition arr_get :: "jsval list \<Rightarrow> nat \<Rightarrow> jsval" where
  "arr_get xs i = (if i < length xs then xs ! i else JUndefined)"


section \<open>DataHolder (data-holder.js)\<close>

text \<open>
  One entry of \<open>data.components\<close>. \<open>nodes\<close> maps a node ID to its attribute array,
  \<open>edges\<close> maps a source ID to the map from target IDs to attribute arrays, \<open>patts\<close>
  is the ordered Array of pattern attribute arrays.
\<close>

record component =
  skipped :: bool
  nodes :: "string \<rightharpoonup> jsval list"
  edges :: "string \<rightharpoonup> (string \<rightharpoonup> jsval list)"
  patts :: "jsval list list"

text \<open>
  The data JSON, as far as the lookups read it: the components, and the positions of
  the \<open>name\<close> entry in a node array and of the \<open>pattern_id\<close> entry in a pattern array.
\<close>

record data_json =
  components :: "component list"
  node_attrs_name :: nat
  patt_attrs_pattern_id :: nat

text \<open>Every \<open>throw new Error(...)\<close> of data-holder.js, with the values its message shows.\<close>

datatype dh_error =
    RankNotPositiveInteger jsnum
  | RankTooLarge jsnum nat
  | NodeNotFound string
  | SourceFoundButNoEdge string string
  | EdgeNotFound string string
  | PatternIdNotInteger string
  | PatternNotFound string

text \<open>
  The errors that report a missing element; the others report an invalid argument.
\<close>

fun is_not_found :: "dh_error \<Rightarrow> bool" where
  "is_not_found (NodeNotFound _) = True"
| "is_not_found (SourceFoundButNoEdge _ _) = True"
| "is_not_found (EdgeNotFound _ _) = True"
| "is_not_found (PatternNotFound _) = True"
| "is_not_found _ = False"

definition numComponents :: "data_json \<Rightarrow> nat" where
  "numComponents d = length (components d)"

definition validateComponentRank :: "data_json \<Rightarrow> jsnum \<Rightarrow> dh_error + bool" where
  "validateComponentRank d sizeRank =
     (if js_gt sizeRank (Fin 0) \<and> isInteger sizeRank then
        if js_le sizeRank (Fin (real (length (components d)))) then Inr True
        else Inl (RankTooLarge sizeRank (length (components d)))
      else Inl (RankNotPositiveInteger sizeRank))"

text \<open>The loop of \<open>getNodeInfo\<close> over \<open>data.components\<close>, from the current index on.\<close>

fun getNodeInfo_from :: "component list \<Rightarrow> string \<Rightarrow> dh_error + jsval list" where
  "getNodeInfo_from [] nodeID = Inl (NodeNotFound nodeID)"
| "getNodeInfo_from (cmp # rest) nodeID =
     (if \<not> skipped cmp then
        (case nodes cmp nodeID of
           Some vals \<Rightarrow> Inr vals
         | None \<Rightarrow> getNodeInfo_from rest nodeID)
      else getNodeInfo_from rest nodeID)"

definition getNodeInfo :: "data_json \<Rightarrow> string \<Rightarrow> dh_error + jsval list" where
  "getNodeInfo d nodeID = getNodeInfo_from (components d) nodeID"

fun getNodeName_from :: "nat \<Rightarrow> component list \<Rightarrow> string \<Rightarrow> dh_error + jsval" where
  "getNodeName_from namePos [] nodeID = Inl (NodeNotFound nodeID)"
| "getNodeName_from namePos (cmp # rest) nodeID =
     (if \<not> skipped cmp then
        (case nodes cmp nodeID of
           Some vals \<Rightarrow> Inr (arr_get vals namePos)
         | None \<Rightarrow> getNodeName_from namePos rest nodeID)
      else getNodeName_from namePos rest nodeID)"

definition getNodeName :: "data_json \<Rightarrow> string \<Rightarrow> dh_error + jsval" where
  "getNodeName d nodeID = getNodeName_from (node_attrs_name d) (components d) nodeID"

fun getEdgeInfo_from :: "component list \<Rightarrow> string \<Rightarrow> string \<Rightarrow> dh_error + jsval list" where
  "getEdgeInfo_from [] srcID tgtID = Inl (EdgeNotFound srcID tgtID)"
| "getEdgeInfo_from (cmp # rest) srcID tgtID =
     (if \<not> skipped cmp then
        (case edges cmp srcID of
           Some fromSrc \<Rightarrow>
             (case fromSrc tgtID of
                Some vals \<Rightarrow> Inr vals
              | None \<Rightarrow> Inl (SourceFoundButNoEdge srcID tgtID))
         | None \<Rightarrow> getEdgeInfo_from rest srcID tgtID)
      else getEdgeInfo_from rest srcID tgtID)"

definition getEdgeInfo :: "data_json \<Rightarrow> string \<Rightarrow> string \<Rightarrow> dh_error + jsval list" where
  "getEdgeInfo d srcID tgtID = getEdgeInfo_from (components d) srcID tgtID"

text \<open>The inner loop of \<open>getPatternInfo\<close> over \<open>cmp.patts\<close>.\<close>

fun findPattern :: "nat \<Rightarrow> jsval list list \<Rightarrow> jsnum \<Rightarrow> jsval list option" where
  "findPattern idPos [] intID = None"
| "findPattern idPos (patt # rest) intID =
     (if strict_eq_num (arr_get patt idPos) intID then Some patt
      else findPattern idPos rest intID)"

fun getPatternInfo_from ::
  "nat \<Rightarrow> component list \<Rightarrow> string \<Rightarrow> jsnum \<Rightarrow> dh_error + jsval list" where
  "getPatternInfo_from idPos [] pattID intID = Inl (PatternNotFound pattID)"
| "getPatternInfo_from idPos (cmp # rest) pattID intID =
     (if \<not> skipped cmp then
        (case findPattern idPos (patts cmp) intID of
           Some patt \<Rightarrow> Inr patt
         | None \<Rightarrow> getPatternInfo_from idPos rest pattID intID)
      else getPatternInfo_from idPos rest pattID intID)"

text \<open>
  \<open>utils.isValidInteger\<close> is not among the sources and \<open>parseInt\<close> is the language's own;
  \<open>getPatternInfo\<close> takes both as parameters.
\<close>

definition getPatternInfo ::
  "(string \<Rightarrow> bool) \<Rightarrow> (string \<Rightarrow> jsnum) \<Rightarrow> data_json \<Rightarrow> string \<Rightarrow> dh_error + jsval list" where
  "getPatternInfo isValidInteger parseInt d pattID =
     (if isValidInteger pattID then
        getPatternInfo_from (patt_attrs_pattern_id d) (components d) pattID (parseInt pattID)
      else Inl (PatternIdNotInteger pattID))"

text \<open>The components that were laid out, in order (the ones the lookups visit).\<close>

definition laidOut :: "data_json \<Rightarrow> component list" where
  "laidOut d = filter (\<lambda>c. \<not> skipped c) (components d)"

text \<open>
  Example data: the largest component was too large to lay out and is marked skipped,
  the second one was drawn.
\<close>

definition example_skipped_component :: component where
  "example_skipped_component =
     \<lparr>skipped = True,
      nodes = [''7'' \<mapsto> [JStr ''contig_7'']],
      edges = [''7'' \<mapsto> [''7'' \<mapsto> [JNum (Fin 1)]]],
      patts = [[JNum (Fin 3), JStr ''bubble'']]\<rparr>"

definition example_drawn_component :: component where
  "example_drawn_component =
     \<lparr>skipped = False,
      nodes = [''1'' \<mapsto> [JStr ''contig_1''], ''2'' \<mapsto> [JStr ''contig_2'']],
      edges = [''1'' \<mapsto> [''2'' \<mapsto> [JNum (Fin 1)]]],
      patts = [[JNum (Fin 0), JStr ''chain'']]\<rparr>"

definition example_data :: data_json where
  "example_data =
     \<lparr>components = [example_skipped_component, example_drawn_component],
      node_attrs_name = 0, patt_attrs_pattern_id = 0\<rparr>"

text \<open>Stand-ins for the two parameters of \<open>getPatternInfo\<close> on the IDs of the example.\<close>

definition example_isValidInteger :: "string \<Rightarrow> bool" where
  "example_isValidInteger s = (s = ''0'' \<or> s = ''3'')"

definition example_parseInt :: "string \<Rightarrow> jsnum" where
  "example_parseInt s = (if s = ''0'' then Fin 0 else if s = ''3'' then Fin 3 else NaN)"


section \<open>Arithmetic on Numbers\<close>

text \<open>
  The operations of drawer.js on Numbers, with the special values of the language. On
  finite Numbers they are the operations on the reals: rounding is not modelled.
  There is one zero, so a quotient by zero takes its sign from the numerator.
\<close>

fun js_neg :: "jsnum \<Rightarrow> jsnum" where
  "js_neg (Fin a) = Fin (- a)"
| "js_neg NaN = NaN"
| "js_neg PInf = NInf"
| "js_neg NInf = PInf"

fun js_sub :: "jsnum \<Rightarrow> jsnum \<Rightarrow> jsnum" where
  "js_sub (Fin a) (Fin b) = Fin (a - b)"
| "js_sub NaN _ = NaN"
| "js_sub _ NaN = NaN"
| "js_sub PInf PInf = NaN"
| "js_sub NInf NInf = NaN"
| "js_sub PInf _ = PInf"
| "js_sub NInf _ = NInf"
| "js_sub (Fin a) PInf = NInf"
| "js_sub (Fin a) NInf = PInf"

text \<open>\<open>Math.abs(x)\<close>.\<close>

fun js_abs :: "jsnum \<Rightarrow> jsnum" where
  "js_abs (Fin a) = Fin \<bar>a\<bar>"
| "js_abs NaN = NaN"
| "js_abs PInf = PInf"
| "js_abs NInf = PInf"

text \<open>\<open>Math.pow(x, 2)\<close>.\<close>

fun js_sq :: "jsnum \<Rightarrow> jsnum" where
  "js_sq (Fin a) = Fin (a * a)"
| "js_sq NaN = NaN"
| "js_sq PInf = PInf"
| "js_sq NInf = PInf"

text \<open>\<open>Math.sqrt(x)\<close>.\<close>

fun js_sqrt :: "jsnum \<Rightarrow> jsnum" where
  "js_sqrt (Fin a) = (if a < 0 then NaN else Fin (sqrt a))"
| "js_sqrt NaN = NaN"
| "js_sqrt PInf = PInf"
| "js_sqrt NInf = NaN"

text \<open>\<open>a / b\<close>.\<close>

fun js_div :: "jsnum \<Rightarrow> jsnum \<Rightarrow> jsnum" where
  "js_div (Fin a) (Fin b) =
     (if b = 0 then (if a = 0 then NaN else if a > 0 then PInf else NInf) else Fin (a / b))"
| "js_div NaN _ = NaN"
| "js_div _ NaN = NaN"
| "js_div (Fin a) PInf = Fin 0"
| "js_div (Fin a) NInf = Fin 0"
| "js_div PInf (Fin b) = (if b < 0 then NInf else PInf)"
| "js_div NInf (Fin b) = (if b < 0 then PInf else NInf)"
| "js_div PInf _ = NaN"
| "js_div NInf _ = NaN"

text \<open>\<open>arr[i]\<close> read as a Number: \<open>undefined\<close>, past the end of the Array, counts as NaN.\<close>

definition arr_num :: "jsnum list \<Rightarrow> nat \<Rightarrow> jsnum" where
  "arr_num xs i = (if i < length xs then xs ! i else NaN)"


section \<open>Strings of Numbers\<close>

text \<open>The character of a decimal digit \<open>d < 10\<close>.\<close>

definition digit_char :: "nat \<Rightarrow> char" where
  "digit_char d = ''0123456789'' ! d"

text \<open>The decimal digits of a natural number, most significant first.\<close>

fun decimal :: "nat \<Rightarrow> string" where
  "decimal n = (if n < 10 then [digit_char n] else decimal (n div 10) @ [digit_char (n mod 10)])"

declare decimal.simps [simp del]

text \<open>
  \<open>x.toFixed(2)\<close>. For a finite \<open>x\<close> below \<open>10^21\<close> in magnitude: the sign, then the
  integer \<open>n\<close> nearest to \<open>100 * |x|\<close> (the larger one of two) written with a point
  before its last two digits. From \<open>10^21\<close> on the language prints the Number as
  \<open>String(x)\<close> does; that printing is the parameter \<open>big\<close>.
\<close>

definition toFixed2 :: "(real \<Rightarrow> string) \<Rightarrow> jsnum \<Rightarrow> string" where
  "toFixed2 big x =
     (case x of
        NaN \<Rightarrow> ''NaN''
      | PInf \<Rightarrow> ''Infinity''
      | NInf \<Rightarrow> ''-Infinity''
      | Fin a \<Rightarrow>
          if \<bar>a\<bar> \<ge> 10 ^ 21 then big a
          else
            let n = nat \<lfloor>\<bar>a\<bar> * 100 + 1 / 2\<rfloor>
            in (if a < 0 then ''-'' else '''')
               @ decimal (n div 100) @ ''.''
               @ [digit_char (n div 10 mod 10), digit_char (n mod 10)])"

text \<open>\<open>s.trim()\<close>: white space is taken off both ends.\<close>

definition is_space :: "char \<Rightarrow> bool" where
  "is_space c = (c \<in> set [CHR '' '', CHR 0x09, CHR 0x0A, CHR 0x0B, CHR 0x0C, CHR 0x0D])"

definition js_trim :: "string \<Rightarrow> string" where
  "js_trim s = rev (dropWhile is_space (rev (dropWhile is_space s)))"


section \<open>Drawer: control points (drawer.js)\<close>

type_synonym point = "jsnum \<times> jsnum"

definition CTRL_PT_DIST_EPSILON :: jsnum where
  "CTRL_PT_DIST_EPSILON = Fin 5"

text \<open>The return value of \<open>convertCtrlPtsToDistsAndWeights\<close>.\<close>

record ctrl_pt_data =
  complex :: bool
  dists :: string
  weights :: string

text \<open>
  \<open>utils.distance\<close> and \<open>utils.pointToLineDistance\<close> are not among the sources: the
  functions below take them as the parameters \<open>distance\<close> and \<open>pointToLineDistance\<close>.
\<close>

text \<open>\<open>currPt\<close> of the iteration at index \<open>p\<close>.\<close>

definition currPt :: "jsnum list \<Rightarrow> jsnum \<Rightarrow> nat \<Rightarrow> point" where
  "currPt ctrlPts dy p = (ctrlPts ! p, js_sub dy (arr_num ctrlPts (p + 1)))"

text \<open>\<open>w\<close> of the iteration, as computed from the three distances, before it is rectified.\<close>

definition ctrlPtWeight ::
  "(point \<Rightarrow> point \<Rightarrow> jsnum) \<Rightarrow> (point \<Rightarrow> point \<Rightarrow> point \<Rightarrow> jsnum) \<Rightarrow>
   point \<Rightarrow> point \<Rightarrow> point \<Rightarrow> jsnum" where
  "ctrlPtWeight distance pointToLineDistance srcPos tgtPos pt =
     (let srcTgtDist = distance srcPos tgtPos;
          pld = pointToLineDistance pt srcPos tgtPos;
          pldsquared = js_sq pld;
          dsp = distance pt srcPos;
          dtp = distance pt tgtPos;
          ws = js_sqrt (js_abs (js_sub (js_sq dsp) pldsquared));
          wt = js_sqrt (js_abs (js_sub (js_sq dtp) pldsquared))
      in if js_gt wt srcTgtDist \<and> js_gt wt ws then js_div (js_neg ws) srcTgtDist
         else js_div ws srcTgtDist)"

text \<open>
  The rectification at the end of the iteration: \<open>p === 0 && w === 0.0\<close>, else
  \<open>p == ctrlPts.length - 2 && w === 1.0\<close>.
\<close>

definition rectifyWeight :: "nat \<Rightarrow> nat \<Rightarrow> jsnum \<Rightarrow> jsnum" where
  "rectifyWeight len p w =
     (if p = 0 \<and> js_seq w (Fin 0) then Fin (1 / 100)
      else if int p = int len - 2 \<and> js_seq w (Fin 1) then Fin (99 / 100)
      else w)"

text \<open>The \<open>for\<close> loop, from index \<open>p\<close> on, with the three variables it updates.\<close>

function convert_loop ::
  "(point \<Rightarrow> point \<Rightarrow> jsnum) \<Rightarrow> (point \<Rightarrow> point \<Rightarrow> point \<Rightarrow> jsnum) \<Rightarrow> (real \<Rightarrow> string) \<Rightarrow>
   point \<Rightarrow> point \<Rightarrow> jsnum list \<Rightarrow> jsnum \<Rightarrow> nat \<Rightarrow> bool \<times> string \<times> string \<Rightarrow> bool \<times> string \<times> string" where
  "convert_loop distance pointToLineDistance big srcPos tgtPos ctrlPts dy p (cplx, ctrlPtDists, ctrlPtWeights) =
     (if p < length ctrlPts then
        let pt = currPt ctrlPts dy p;
            pld = pointToLineDistance pt srcPos tgtPos;
            w = ctrlPtWeight distance pointToLineDistance srcPos tgtPos pt;
            cplx' = (if js_gt (js_abs pld) CTRL_PT_DIST_EPSILON then True else cplx);
            w' = rectifyWeight (length ctrlPts) p w
        in convert_loop distance pointToLineDistance big srcPos tgtPos ctrlPts dy (p + 2)
             (cplx', ctrlPtDists @ toFixed2 big pld @ '' '', ctrlPtWeights @ toFixed2 big w' @ '' '')
      else (cplx, ctrlPtDists, ctrlPtWeights))"
  by pat_completeness auto
termination
  by (relation "measure (\<lambda>(distance, pointToLineDistance, big, srcPos, tgtPos, ctrlPts, dy, p, acc).
        length ctrlPts - p)") auto

declare convert_loop.simps [simp del]

definition convertCtrlPtsToDistsAndWeights ::
  "(point \<Rightarrow> point \<Rightarrow> jsnum) \<Rightarrow> (point \<Rightarrow> point \<Rightarrow> point \<Rightarrow> jsnum) \<Rightarrow> (real \<Rightarrow> string) \<Rightarrow>
   point \<Rightarrow> point \<Rightarrow> jsnum list \<Rightarrow> jsnum \<Rightarrow> jsnum \<Rightarrow> ctrl_pt_data" where
  "convertCtrlPtsToDistsAndWeights distance pointToLineDistance big srcPos tgtPos ctrlPts dx dy =
     (case convert_loop distance pointToLineDistance big srcPos tgtPos ctrlPts dy 0 (False, '''', '''') of
        (cplx, ctrlPtDists, ctrlPtWeights) \<Rightarrow>
          \<lparr>complex = cplx, dists = js_trim ctrlPtDists, weights = js_trim ctrlPtWeights\<rparr>)"

text \<open>
  Modelled from the spec: \<open>utils.distance\<close> and \<open>utils.pointToLineDistance\<close>, which are
  not among the sources. The first is the distance of two points, the second "its
  perpendicular distance to the line from source to target", here with the sign of the
  side of the line the point lies on. Both are given for finite coordinates.
\<close>

fun utils_distance :: "point \<Rightarrow> point \<Rightarrow> jsnum" where
  "utils_distance (Fin x1, Fin y1) (Fin x2, Fin y2) =
     Fin (sqrt ((x2 - x1) * (x2 - x1) + (y2 - y1) * (y2 - y1)))"
| "utils_distance _ _ = NaN"

fun utils_pointToLineDistance :: "point \<Rightarrow> point \<Rightarrow> point \<Rightarrow> jsnum" where
  "utils_pointToLineDistance (Fin x, Fin y) (Fin x1, Fin y1) (Fin x2, Fin y2) =
     js_div (Fin ((y2 - y1) * x - (x2 - x1) * y + x2 * y1 - y2 * x1))
            (utils_distance (Fin x1, Fin y1) (Fin x2, Fin y2))"
| "utils_pointToLineDistance _ _ _ = NaN"

text \<open>
  An edge from \<open>(0, 0)\<close> to \<open>(10, 0)\<close> with three control points, the middle one on
  the source position; \<open>dy\<close> is 0.
\<close>

definition example_ctrlPts :: "jsnum list" where
  "example_ctrlPts = [Fin 5, Fin 0, Fin 0, Fin 0, Fin 5, Fin 0]"

text \<open>
  An edge from \<open>(0, 0)\<close> to \<open>(250, 0)\<close> with two control points on the line, one
  just past the source position and one just before the target position.
\<close>

definition example_near_ctrlPts :: "jsnum list" where
  "example_near_ctrlPts = [Fin 1, Fin 0, Fin 249, Fin 0]"

text \<open>The first edge with control points that leave the line by 3 and by 6.\<close>

definition example_flat_ctrlPts :: "jsnum list" where
  "example_flat_ctrlPts = [Fin 2, Fin 3, Fin 8, Fin (- 3)]"

definition example_curved_ctrlPts :: "jsnum list" where
  "example_curved_ctrlPts = [Fin 2, Fin 3, Fin 8, Fin (- 6)]"

text \<open>Printing from \<open>10^21\<close> on is not reached by the examples.\<close>

definition example_big :: "real \<Rightarrow> string" where
  "example_big a = ''1e+21''"


section \<open>The Cytoscape.js instance\<close>

text \<open>
  The graph that drawer.js keeps in \<open>this.cy\<close>, as far as \<open>initPatterns\<close>,
  \<open>collapsePattern\<close> and \<open>uncollapsePattern\<close> read and write it. Elements are named by
  their IDs. \<open>eles\<close> lists the IDs of all elements that were added, in the order of
  adding; an element is in the graph when it is listed and not removed. Nodes and
  patterns are nodes of the library, patterns with the class \<open>pattern\<close>; \<open>parent\<close> is the
  compound parent of a node. \<open>source\<close> and \<open>target\<close> are the active endpoints of an edge.
  \<open>cpd\<close> is the data entry of that name, \<open>None\<close> when it was never set. The next six
  fields are what \<open>renderPattern\<close> and \<open>initPatterns\<close> store in a pattern's data and
  scratch. \<open>batchCount\<close> is the number of batches that \<open>startBatch\<close> has opened and
  \<open>endBatch\<close> has not closed.
\<close>

record cy =
  eles :: "string list"
  isEdge :: "string \<Rightarrow> bool"
  removed :: "string \<Rightarrow> bool"
  source :: "string \<Rightarrow> string"
  target :: "string \<Rightarrow> string"
  parent :: "string \<Rightarrow> string option"
  classes :: "string \<Rightarrow> string set"
  cpd :: "string \<Rightarrow> string option"
  selected :: "string \<Rightarrow> bool"
  isCollapsed :: "string \<Rightarrow> bool"
  incomingEdgeMap :: "string \<Rightarrow> (string \<times> string \<times> string) list"
  outgoingEdgeMap :: "string \<Rightarrow> (string \<times> string \<times> string) list"
  collapsedLabel :: "string \<Rightarrow> string"
  interiorEles :: "string \<Rightarrow> string list"
  interiorNodes :: "string \<Rightarrow> string list"
  batchCount :: nat

text \<open>\<open>cy.hasElementWithId(id)\<close>: the element is in the graph.\<close>

definition inGraph :: "cy \<Rightarrow> string \<Rightarrow> bool" where
  "inGraph s x = (x \<in> set (eles s) \<and> \<not> removed s x)"

text \<open>
  \<open>cy.getElementById(id)\<close>: the element, or the empty collection when no element of
  that ID is in the graph. A collection of at most one element is an option.
\<close>

definition getElementById :: "cy \<Rightarrow> string \<Rightarrow> string option" where
  "getElementById s x = (if inGraph s x then Some x else None)"

text \<open>
  \<open>ele.hasClass(c)\<close>, \<open>ele.addClass(c)\<close>, \<open>ele.removeClass(c)\<close> and the truth value of
  \<open>ele.data("cpd")\<close>; on the empty collection the first and the last are false and the
  other two do nothing.
\<close>

fun hasClass :: "cy \<Rightarrow> string option \<Rightarrow> string \<Rightarrow> bool" where
  "hasClass s None c = False"
| "hasClass s (Some x) c = (c \<in> classes s x)"

fun addClass :: "cy \<Rightarrow> string option \<Rightarrow> string \<Rightarrow> cy" where
  "addClass s None c = s"
| "addClass s (Some x) c = s\<lparr>classes := (classes s)(x := insert c (classes s x))\<rparr>"

fun removeClass :: "cy \<Rightarrow> string option \<Rightarrow> string \<Rightarrow> cy" where
  "removeClass s None c = s"
| "removeClass s (Some x) c = s\<lparr>classes := (classes s)(x := classes s x - {c})\<rparr>"

fun dataCpd :: "cy \<Rightarrow> string option \<Rightarrow> bool" where
  "dataCpd s None = False"
| "dataCpd s (Some x) = (case cpd s x of None \<Rightarrow> False | Some d \<Rightarrow> d \<noteq> [])"

text \<open>
  \<open>edge.source()\<close> and \<open>edge.target()\<close>: the endpoint of an edge, the empty collection
  for a node, and \<open>undefined\<close> on the empty collection. A method called on \<open>undefined\<close>
  throws a \<open>TypeError\<close>.
\<close>

datatype js_error = TypeError

datatype ele_ref = Undefined | Eles "string option"

fun eleSource :: "cy \<Rightarrow> string option \<Rightarrow> ele_ref" where
  "eleSource s None = Undefined"
| "eleSource s (Some x) = Eles (if isEdge s x then Some (source s x) else None)"

fun eleTarget :: "cy \<Rightarrow> string option \<Rightarrow> ele_ref" where
  "eleTarget s None = Undefined"
| "eleTarget s (Some x) = Eles (if isEdge s x then Some (target s x) else None)"

text \<open>
  \<open>edge.move({target: id})\<close> and \<open>edge.move({source: id})\<close>: the endpoint of an edge is
  replaced when an element of the new ID is in the graph; otherwise, and on the empty
  collection and on a node, nothing happens.
\<close>

fun moveTarget :: "cy \<Rightarrow> string option \<Rightarrow> string \<Rightarrow> cy" where
  "moveTarget s None t = s"
| "moveTarget s (Some x) t =
     (if inGraph s t \<and> isEdge s x then s\<lparr>target := (target s)(x := t)\<rparr> else s)"

fun moveSource :: "cy \<Rightarrow> string option \<Rightarrow> string \<Rightarrow> cy" where
  "moveSource s None t = s"
| "moveSource s (Some x) t =
     (if inGraph s t \<and> isEdge s x then s\<lparr>source := (source s)(x := t)\<rparr> else s)"

text \<open>Collections of elements are lists of IDs without repetition.\<close>

definition difference :: "string list \<Rightarrow> string list \<Rightarrow> string list" where
  "difference xs ys = filter (\<lambda>x. x \<notin> set ys) xs"

definition union_eles :: "string list \<Rightarrow> string list \<Rightarrow> string list" where
  "union_eles xs ys = xs @ filter (\<lambda>y. y \<notin> set xs) ys"

text \<open>\<open>cy.$("node.pattern")\<close>.\<close>

definition patterns :: "cy \<Rightarrow> string list" where
  "patterns s = filter (\<lambda>x. inGraph s x \<and> \<not> isEdge s x \<and> ''pattern'' \<in> classes s x) (eles s)"

text \<open>\<open>pattern.children()\<close>: the nodes in the graph whose parent is the pattern.\<close>

definition children :: "cy \<Rightarrow> string \<Rightarrow> string list" where
  "children s p = filter (\<lambda>x. inGraph s x \<and> \<not> isEdge s x \<and> parent s x = Some p) (eles s)"

text \<open>
  \<open>nodes.incomers("edge")\<close>, \<open>nodes.outgoers("edge")\<close> and \<open>nodes.connectedEdges()\<close>: the
  edges in the graph whose target, whose source, or one of whose endpoints is among the
  nodes. A loop on one of the nodes is an incomer and an outgoer.
\<close>

definition incomers :: "cy \<Rightarrow> string list \<Rightarrow> string list" where
  "incomers s ns = filter (\<lambda>e. inGraph s e \<and> isEdge s e \<and> target s e \<in> set ns) (eles s)"

definition outgoers :: "cy \<Rightarrow> string list \<Rightarrow> string list" where
  "outgoers s ns = filter (\<lambda>e. inGraph s e \<and> isEdge s e \<and> source s e \<in> set ns) (eles s)"

definition connectedEdges :: "cy \<Rightarrow> string list \<Rightarrow> string list" where
  "connectedEdges s ns =
     filter (\<lambda>e. inGraph s e \<and> isEdge s e \<and> (source s e \<in> set ns \<or> target s e \<in> set ns)) (eles s)"

text \<open>
  \<open>cy.startBatch()\<close> and \<open>cy.endBatch()\<close>: while a batch is open the library puts off
  working out styles and telling the renderer; \<open>endBatch\<close> with no batch open does
  nothing.
\<close>

definition startBatch :: "cy \<Rightarrow> cy" where
  "startBatch s = s\<lparr>batchCount := Suc (batchCount s)\<rparr>"

definition endBatch :: "cy \<Rightarrow> cy" where
  "endBatch s = s\<lparr>batchCount := batchCount s - 1\<rparr>"

text \<open>\<open>eles.unselect()\<close>.\<close>

definition unselect :: "cy \<Rightarrow> string list \<Rightarrow> cy" where
  "unselect s xs = s\<lparr>selected := (\<lambda>x. selected s x \<and> x \<notin> set xs)\<rparr>"

text \<open>
  \<open>eles.remove()\<close> takes the elements of the collection that are in the graph out of
  it, and with every node its descendants and the edges connected to it or to a
  descendant. \<open>removedNode k s xs x\<close>: the node \<open>x\<close> is in the graph and is, or has
  within \<open>k\<close> steps up the parents that are in the graph, a node of the collection.
\<close>

fun removedNode :: "nat \<Rightarrow> cy \<Rightarrow> string list \<Rightarrow> string \<Rightarrow> bool" where
  "removedNode 0 s xs x = (inGraph s x \<and> \<not> isEdge s x \<and> x \<in> set xs)"
| "removedNode (Suc k) s xs x =
     (inGraph s x \<and> \<not> isEdge s x \<and>
      (x \<in> set xs \<or> (case parent s x of None \<Rightarrow> False | Some y \<Rightarrow> removedNode k s xs y)))"

definition removedEle :: "cy \<Rightarrow> string list \<Rightarrow> string \<Rightarrow> bool" where
  "removedEle s xs x =
     (let k = length (eles s) in
      if isEdge s x then
        inGraph s x \<and> (x \<in> set xs \<or> removedNode k s xs (source s x) \<or> removedNode k s xs (target s x))
      else removedNode k s xs x)"

definition remove_eles :: "cy \<Rightarrow> string list \<Rightarrow> cy" where
  "remove_eles s xs = s\<lparr>removed := (\<lambda>x. removed s x \<or> removedEle s xs x)\<rparr>"

text \<open>
  \<open>eles.restore()\<close> puts the removed elements of the collection back: first the nodes,
  then each edge whose source and target are in the graph by then (an edge with a
  missing endpoint stays removed); at the end a restored node whose parent is not in the
  graph loses its parent. The endpoints of an edge are nodes, so the order among the
  edges plays no role.
\<close>

definition restore_nodes :: "cy \<Rightarrow> string list \<Rightarrow> cy" where
  "restore_nodes s xs =
     s\<lparr>removed := (\<lambda>x. removed s x \<and> \<not> (x \<in> set xs \<and> x \<in> set (eles s) \<and> \<not> isEdge s x))\<rparr>"

definition restore_edges :: "cy \<Rightarrow> string list \<Rightarrow> cy" where
  "restore_edges s xs =
     s\<lparr>removed := (\<lambda>x. removed s x \<and>
          \<not> (x \<in> set xs \<and> x \<in> set (eles s) \<and> isEdge s x
             \<and> inGraph s (source s x) \<and> inGraph s (target s x)))\<rparr>"

definition restore_parents :: "cy \<Rightarrow> string list \<Rightarrow> cy \<Rightarrow> cy" where
  "restore_parents s0 xs s =
     s\<lparr>parent := (\<lambda>x. if x \<in> set xs \<and> x \<in> set (eles s0) \<and> \<not> isEdge s0 x \<and> removed s0 x
                       then (case parent s x of
                               None \<Rightarrow> None
                             | Some q \<Rightarrow> if inGraph s q then Some q else None)
                       else parent s x)\<rparr>"

definition restore_eles :: "cy \<Rightarrow> string list \<Rightarrow> cy" where
  "restore_eles s xs = restore_parents s xs (restore_edges (restore_nodes s xs) xs)"


section \<open>Drawer: patterns (drawer.js)\<close>

text \<open>The body of the \<open>each\<close> of \<open>initPatterns\<close>, for one pattern.\<close>

definition initPattern :: "string \<Rightarrow> cy \<Rightarrow> cy" where
  "initPattern pattern s =
     (let chn = children s pattern;
          uIncomingEdges = incomers s chn;
          uOutgoingEdges = outgoers s chn;
          incomingEdges = difference uIncomingEdges uOutgoingEdges;
          outgoingEdges = difference uOutgoingEdges uIncomingEdges;
          inMap = map (\<lambda>e. (e, source s e, target s e)) incomingEdges;
          outMap = map (\<lambda>e. (e, source s e, target s e)) outgoingEdges;
          interiorEdges = difference (difference (connectedEdges s chn) incomingEdges) outgoingEdges;
          numChildren = length chn;
          label = decimal numChildren @ '' child'' @ (if numChildren > 1 then ''ren'' else '''')
      in s\<lparr>incomingEdgeMap := (incomingEdgeMap s)(pattern := inMap),
            outgoingEdgeMap := (outgoingEdgeMap s)(pattern := outMap),
            collapsedLabel := (collapsedLabel s)(pattern := label),
            interiorEles := (interiorEles s)(pattern := union_eles interiorEdges chn),
            interiorNodes := (interiorNodes s)(pattern := chn)\<rparr>)"

definition initPatterns :: "cy \<Rightarrow> cy" where
  "initPatterns s = fold initPattern (patterns s) s"

definition makeEdgeBasic :: "cy \<Rightarrow> string option \<Rightarrow> cy" where
  "makeEdgeBasic s edgeEle =
     (let s1 = (if dataCpd s edgeEle
                then addClass (removeClass s edgeEle ''unbundledbezier'') edgeEle ''basicbezier''
                else s)
      in addClass s1 edgeEle ''not_using_ports'')"

definition makeEdgeNonBasic :: "cy \<Rightarrow> string option \<Rightarrow> cy" where
  "makeEdgeNonBasic s edgeEle =
     (let s1 = (if dataCpd s edgeEle
                then addClass (removeClass s edgeEle ''basicbezier'') edgeEle ''unbundledbezier''
                else s)
      in removeClass s1 edgeEle ''not_using_ports'')"

text \<open>The bodies of the two loops of \<open>collapsePattern\<close>, for one entry of the map.\<close>

definition collapseIncoming :: "string \<Rightarrow> string \<times> string \<times> string \<Rightarrow> cy \<Rightarrow> cy" where
  "collapseIncoming pattID entry s =
     (let oldIncomingEdge = getElementById s (fst entry)
      in moveTarget (makeEdgeBasic s oldIncomingEdge) oldIncomingEdge pattID)"

definition collapseOutgoing :: "string \<Rightarrow> string \<times> string \<times> string \<Rightarrow> cy \<Rightarrow> cy" where
  "collapseOutgoing pattID entry s =
     (let oldOutgoingEdge = getElementById s (fst entry)
      in moveSource (makeEdgeBasic s oldOutgoingEdge) oldOutgoingEdge pattID)"

definition collapsePattern :: "cy \<Rightarrow> string \<Rightarrow> cy" where
  "collapsePattern s pattern =
     (let s0 = startBatch s;
          s1 = fold (collapseIncoming pattern) (incomingEdgeMap s0 pattern) s0;
          s2 = fold (collapseOutgoing pattern) (outgoingEdgeMap s1 pattern) s1;
          s3 = s2\<lparr>isCollapsed := (isCollapsed s2)(pattern := True)\<rparr>;
          s4 = unselect s3 (interiorEles s3 pattern);
          s5 = remove_eles s4 (interiorEles s4 pattern)
      in endBatch s5)"

text \<open>
  A call that can throw gives \<open>Inr\<close> of the state when it returns, and \<open>Inl\<close> of the error
  and the state it leaves behind when it throws. \<open>forEach\<close> is a loop over the entries of
  a map that ends at the first entry whose body throws.
\<close>

type_synonym outcome = "js_error \<times> cy + cy"

fun forEach :: "('a \<Rightarrow> cy \<Rightarrow> outcome) \<Rightarrow> 'a list \<Rightarrow> cy \<Rightarrow> outcome" where
  "forEach f [] s = Inr s"
| "forEach f (x # xs) s = (case f x s of Inl thrown \<Rightarrow> Inl thrown | Inr s' \<Rightarrow> forEach f xs s')"

text \<open>
  The bodies of the two loops of \<open>uncollapsePattern\<close>. When the edge of the entry is not
  in the graph, \<open>getElementById\<close> gives the empty collection, its \<open>source()\<close> or
  \<open>target()\<close> is \<open>undefined\<close>, and the call of \<open>hasClass\<close> throws.
\<close>

definition uncollapseIncoming :: "string \<times> string \<times> string \<Rightarrow> cy \<Rightarrow> outcome" where
  "uncollapseIncoming entry s =
     (let newTgt = snd (snd entry);
          oldIncomingEdge = getElementById s (fst entry)
      in case eleSource s oldIncomingEdge of
           Undefined \<Rightarrow> Inl (TypeError, s)
         | Eles src \<Rightarrow>
             (let s1 = (if \<not> hasClass s src ''pattern''
                        then makeEdgeNonBasic s oldIncomingEdge else s)
              in Inr (moveTarget s1 oldIncomingEdge newTgt)))"

definition uncollapseOutgoing :: "string \<times> string \<times> string \<Rightarrow> cy \<Rightarrow> outcome" where
  "uncollapseOutgoing entry s =
     (let newSrc = fst (snd entry);
          oldOutgoingEdge = getElementById s (fst entry)
      in case eleTarget s oldOutgoingEdge of
           Undefined \<Rightarrow> Inl (TypeError, s)
         | Eles tgt \<Rightarrow>
             (let s1 = (if \<not> hasClass s tgt ''pattern''
                        then makeEdgeNonBasic s oldOutgoingEdge else s)
              in Inr (moveSource s1 oldOutgoingEdge newSrc)))"

text \<open>
  \<open>uncollapsePattern\<close>. When a loop throws, the rest of the function is not run: the
  flag of the pattern is not cleared and the batch stays open.
\<close>

definition uncollapsePattern :: "cy \<Rightarrow> string \<Rightarrow> outcome" where
  "uncollapsePattern s pattern =
     (let s0 = startBatch s;
          s1 = restore_eles s0 (interiorEles s0 pattern)
      in case forEach uncollapseIncoming (incomingEdgeMap s1 pattern) s1 of
           Inl thrown \<Rightarrow> Inl thrown
         | Inr s2 \<Rightarrow>
             (case forEach uncollapseOutgoing (outgoingEdgeMap s2 pattern) s2 of
                Inl thrown \<Rightarrow> Inl thrown
              | Inr s3 \<Rightarrow> Inr (endBatch (s3\<lparr>isCollapsed := (isCollapsed s3)(pattern := False)\<rparr>))))"


text \<open>
  What \<open>initPatterns\<close> computes for one pattern: the incoming and the outgoing edges, and
  the interior elements.
\<close>

definition incomingOf :: "cy \<Rightarrow> string \<Rightarrow> string list" where
  "incomingOf s p = difference (incomers s (children s p)) (outgoers s (children s p))"

definition outgoingOf :: "cy \<Rightarrow> string \<Rightarrow> string list" where
  "outgoingOf s p = difference (outgoers s (children s p)) (incomers s (children s p))"

definition interiorOf :: "cy \<Rightarrow> string \<Rightarrow> string list" where
  "interiorOf s p =
     union_eles (difference (difference (connectedEdges s (children s p)) (incomingOf s p)) (outgoingOf s p))
       (children s p)"

text \<open>
  \<open>cy.add\<close> as \<open>renderPattern\<close>, \<open>renderNode\<close> and \<open>renderEdge\<close> call it. A node is added
  with its classes and, when that parent is in the graph, its parent; an edge is added
  with its endpoints, classes and \<open>cpd\<close> entry when both endpoints are in the graph.
  An edge gets its ID from the library; here the caller names it.
\<close>

definition cy_empty :: cy where
  "cy_empty =
     \<lparr>eles = [], isEdge = (\<lambda>x. False), removed = (\<lambda>x. False), source = (\<lambda>x. []),
      target = (\<lambda>x. []), parent = (\<lambda>x. None), classes = (\<lambda>x. {}), cpd = (\<lambda>x. None),
      selected = (\<lambda>x. False), isCollapsed = (\<lambda>x. False),
      incomingEdgeMap = (\<lambda>x. []), outgoingEdgeMap = (\<lambda>x. []), collapsedLabel = (\<lambda>x. []),
      interiorEles = (\<lambda>x. []), interiorNodes = (\<lambda>x. []), batchCount = 0\<rparr>"

definition addNode :: "string \<Rightarrow> string option \<Rightarrow> string list \<Rightarrow> cy \<Rightarrow> cy" where
  "addNode x par cls s =
     (if x \<in> set (eles s) then s
      else s\<lparr>eles := eles s @ [x],
             parent := (parent s)(x := (case par of None \<Rightarrow> None
                                        | Some q \<Rightarrow> if inGraph s q then Some q else None)),
             classes := (classes s)(x := set cls)\<rparr>)"

definition addEdge :: "string \<Rightarrow> string \<Rightarrow> string \<Rightarrow> string option \<Rightarrow> string list \<Rightarrow> cy \<Rightarrow> cy" where
  "addEdge x src tgt d cls s =
     (if x \<in> set (eles s) \<or> \<not> inGraph s src \<or> \<not> inGraph s tgt then s
      else s\<lparr>eles := eles s @ [x],
             isEdge := (isEdge s)(x := True),
             source := (source s)(x := src),
             target := (target s)(x := tgt),
             classes := (classes s)(x := set cls),
             cpd := (cpd s)(x := d)\<rparr>)"

text \<open>
  An example component as \<open>draw\<close> leaves it before \<open>initPatterns\<close>: the chain \<open>P\<close> holds
  the bubble \<open>Q\<close> and the node \<open>c\<close>, \<open>Q\<close> holds the node \<open>n\<close>, the chain \<open>R\<close> holds the
  node \<open>r\<close>, and \<open>m\<close> is in no pattern. Edge \<open>e1\<close> runs from \<open>m\<close> to \<open>n\<close>, \<open>e2\<close> from
  \<open>c\<close> to \<open>n\<close>, \<open>e3\<close> from \<open>m\<close> to \<open>c\<close>, \<open>e4\<close> from \<open>c\<close> to \<open>r\<close>, and \<open>e5\<close> is a loop
  on \<open>c\<close>; \<open>e1\<close> and \<open>e3\<close> have control-point data.
\<close>

definition example_drawn :: cy where
  "example_drawn =
     (addEdge ''e5'' ''c'' ''c'' None [''oriented'', ''basicbezier'']
     (addEdge ''e4'' ''c'' ''r'' None [''oriented'', ''basicbezier'']
     (addEdge ''e3'' ''m'' ''c'' (Some ''12.00'') [''oriented'', ''unbundledbezier'']
     (addEdge ''e2'' ''c'' ''n'' None [''oriented'', ''basicbezier'']
     (addEdge ''e1'' ''m'' ''n'' (Some ''-8.50 9.25'') [''oriented'', ''unbundledbezier'']
     (addNode ''r'' (Some ''R'') [''basic'', ''rightdir'']
     (addNode ''n'' (Some ''Q'') [''basic'', ''rightdir'']
     (addNode ''c'' (Some ''P'') [''basic'', ''rightdir'']
     (addNode ''m'' None [''basic'', ''leftdir'']
     (addNode ''R'' None [''pattern'', ''C'']
     (addNode ''Q'' (Some ''P'') [''pattern'', ''B'']
     (addNode ''P'' None [''pattern'', ''C'']
      cy_empty))))))))))))"

definition example_graph :: cy where
  "example_graph = initPatterns example_drawn"



text \<open>The example with the inner pattern \<open>Q\<close> collapsed.\<close>

definition example_Q_collapsed :: cy where
  "example_Q_collapsed = collapsePattern example_graph ''Q''"

text \<open>
  A second example component: the pattern \<open>X\<close> holds the node \<open>x\<close>, the pattern \<open>Y\<close>
  holds the pattern \<open>Z\<close>, which holds the node \<open>y\<close>, and the edge \<open>f\<close>, with
  control-point data, runs from \<open>x\<close> to \<open>y\<close>. It is given after \<open>initPatterns\<close>, then
  with \<open>X\<close> collapsed, and with \<open>Y\<close> collapsed instead.
\<close>

definition example_nested_drawn :: cy where
  "example_nested_drawn =
     (addEdge ''f'' ''x'' ''y'' (Some ''7.50'') [''oriented'', ''unbundledbezier'']
     (addNode ''y'' (Some ''Z'') [''basic'', ''rightdir'']
     (addNode ''x'' (Some ''X'') [''basic'', ''rightdir'']
     (addNode ''Z'' (Some ''Y'') [''pattern'', ''B'']
     (addNode ''Y'' None [''pattern'', ''C'']
     (addNode ''X'' None [''pattern'', ''C'']
      cy_empty))))))"

definition example_nested :: cy where
  "example_nested = initPatterns example_nested_drawn"


definition example_Y_collapsed :: cy where
  "example_Y_collapsed = collapsePattern example_nested ''Y''"


text \<open>
  The classes of an edge after \<open>makeEdgeBasic\<close> and after \<open>makeEdgeNonBasic\<close>, from its
  classes before and the truth value of its \<open>cpd\<close> entry.
\<close>

definition basicClasses :: "bool \<Rightarrow> string set \<Rightarrow> string set" where
  "basicClasses d cs =
     insert ''not_using_ports'' (if d then insert ''basicbezier'' (cs - {''unbundledbezier''}) else cs)"

definition nonBasicClasses :: "bool \<Rightarrow> string set \<Rightarrow> string set" where
  "nonBasicClasses d cs =
     (if d then insert ''unbundledbezier'' (cs - {''basicbezier''}) else cs) - {''not_using_ports''}"

text \<open>
  An edge is settled for a collapsed pattern when, if it is in the graph, it has the
  classes of a basic edge and its target (for an incoming edge) or source (for an
  outgoing one) is the pattern, provided the pattern is in the graph.
\<close>

definition settledIncoming :: "string \<Rightarrow> string \<Rightarrow> cy \<Rightarrow> bool" where
  "settledIncoming p e s =
     (inGraph s e \<longrightarrow>
        classes s e = basicClasses (dataCpd s (Some e)) (classes s e)
        \<and> (inGraph s p \<and> isEdge s e \<longrightarrow> target s e = p))"

definition settledOutgoing :: "string \<Rightarrow> string \<Rightarrow> cy \<Rightarrow> bool" where
  "settledOutgoing p e s =
     (inGraph s e \<longrightarrow>
        classes s e = basicClasses (dataCpd s (Some e)) (classes s e)
        \<and> (inGraph s p \<and> isEdge s e \<longrightarrow> source s e = p))"

text \<open>
  The state that a call leaves behind, whether it returned or threw, and the bodies of
  the two loops of \<open>uncollapsePattern\<close> as functions from state to state.
\<close>

definition stateLeft :: "outcome \<Rightarrow> cy" where
  "stateLeft r = (case r of Inl thrown \<Rightarrow> snd thrown | Inr s \<Rightarrow> s)"

definition incomingStep :: "string \<times> string \<times> string \<Rightarrow> cy \<Rightarrow> cy" where
  "incomingStep entry s = stateLeft (uncollapseIncoming entry s)"

definition outgoingStep :: "string \<times> string \<times> string \<Rightarrow> cy \<Rightarrow> cy" where
  "outgoingStep entry s = stateLeft (uncollapseOutgoing entry s)"


text \<open>
  For the bound in \<open>removedEle\<close>: \<open>ancestor s i x\<close> is the element \<open>i\<close> parents above
  \<open>x\<close>, and \<open>hitAt s xs j x\<close> says that \<open>x\<close> and the \<open>j\<close> elements above it are nodes in
  the graph, the last of them a node of the collection.
\<close>

fun ancestor :: "cy \<Rightarrow> nat \<Rightarrow> string \<Rightarrow> string option" where
  "ancestor s 0 x = Some x"
| "ancestor s (Suc i) x = (case parent s x of None \<Rightarrow> None | Some y \<Rightarrow> ancestor s i y)"

fun hitAt :: "cy \<Rightarrow> string list \<Rightarrow> nat \<Rightarrow> string \<Rightarrow> bool" where
  "hitAt s xs 0 x = (inGraph s x \<and> \<not> isEdge s x \<and> x \<in> set xs)"
| "hitAt s xs (Suc j) x =
     (inGraph s x \<and> \<not> isEdge s x \<and> (case parent s x of None \<Rightarrow> False | Some y \<Rightarrow> hitAt s xs j y))"

section \<open>DataHolder: properties\<close>

lemma isInteger_iff: "isInteger r \<longleftrightarrow> (\<exists>k::int. r = Fin (of_int k))"
proof (cases r)
  case (Fin a)
  show ?thesis
  proof
    assume "isInteger r"
    with Fin have "a = of_int \<lfloor>a\<rfloor>" by simp
    with Fin show "\<exists>k::int. r = Fin (of_int k)" by blast
  next
    assume "\<exists>k::int. r = Fin (of_int k)"
    with Fin show "isInteger r" by auto
  qed
qed auto

text \<open>
  Claim C8. \<open>validateComponentRank\<close> throws the "isn't a positive integer" error for
  every size rank that is not an integer or is an integer at most 0, throws the distinct
  "too large" error for every integer rank above the number of components, and returns
  true for every integer rank from 1 to the number of components.
\<close>

theorem validateComponentRank_spec:
  "((\<forall>k::int. r \<noteq> Fin (of_int k)) \<or> (\<exists>k::int. k \<le> 0 \<and> r = Fin (of_int k))
      \<longrightarrow> validateComponentRank d r = Inl (RankNotPositiveInteger r))
   \<and> (r = Fin (of_int (k::int)) \<and> int (numComponents d) < k
      \<longrightarrow> validateComponentRank d r = Inl (RankTooLarge r (numComponents d)))
   \<and> (r = Fin (of_int k) \<and> 1 \<le> k \<and> k \<le> int (numComponents d)
      \<longrightarrow> validateComponentRank d r = Inr True)"
proof (intro conjI impI)
  assume "(\<forall>k::int. r \<noteq> Fin (of_int k)) \<or> (\<exists>k::int. k \<le> 0 \<and> r = Fin (of_int k))"
  then show "validateComponentRank d r = Inl (RankNotPositiveInteger r)"
  proof
    assume "\<forall>k::int. r \<noteq> Fin (of_int k)"
    then have "\<not> isInteger r" by (simp add: isInteger_iff)
    then show ?thesis by (simp add: validateComponentRank_def)
  next
    assume "\<exists>k::int. k \<le> 0 \<and> r = Fin (of_int k)"
    then have "\<not> js_gt r (Fin 0)" by auto
    then show ?thesis by (simp add: validateComponentRank_def)
  qed
next
  assume "r = Fin (of_int k) \<and> int (numComponents d) < k"
  then show "validateComponentRank d r = Inl (RankTooLarge r (numComponents d))"
    by (auto simp: validateComponentRank_def numComponents_def)
next
  assume "r = Fin (of_int k) \<and> 1 \<le> k \<and> k \<le> int (numComponents d)"
  then show "validateComponentRank d r = Inr True"
    by (auto simp: validateComponentRank_def numComponents_def)
qed

lemma getNodeInfo_from_filter:
  "getNodeInfo_from (filter (\<lambda>c. \<not> skipped c) cs) n = getNodeInfo_from cs n"
  by (induction cs) (auto split: option.splits)

lemma getNodeName_from_filter:
  "getNodeName_from k (filter (\<lambda>c. \<not> skipped c) cs) n = getNodeName_from k cs n"
  by (induction cs) (auto split: option.splits)

lemma getEdgeInfo_from_filter:
  "getEdgeInfo_from (filter (\<lambda>c. \<not> skipped c) cs) s t = getEdgeInfo_from cs s t"
  by (induction cs) (auto split: option.splits)

lemma getPatternInfo_from_filter:
  "getPatternInfo_from k (filter (\<lambda>c. \<not> skipped c) cs) p i = getPatternInfo_from k cs p i"
  by (induction cs) (auto split: option.splits)

lemma getNodeInfo_from_absent:
  "\<forall>c\<in>set cs. \<not> skipped c \<longrightarrow> nodes c n = None \<Longrightarrow> getNodeInfo_from cs n = Inl (NodeNotFound n)"
  by (induction cs) auto

lemma getNodeName_from_absent:
  "\<forall>c\<in>set cs. \<not> skipped c \<longrightarrow> nodes c n = None \<Longrightarrow> getNodeName_from k cs n = Inl (NodeNotFound n)"
  by (induction cs) auto

lemma getNodeInfo_from_present:
  "\<exists>c\<in>set cs. \<not> skipped c \<and> nodes c n \<noteq> None \<Longrightarrow>
   \<exists>c\<in>set cs. \<exists>vals. \<not> skipped c \<and> nodes c n = Some vals \<and> getNodeInfo_from cs n = Inr vals
      \<and> getNodeName_from k cs n = Inr (arr_get vals k)"
  by (induction cs) (auto split: option.splits)

lemma getEdgeInfo_from_absent:
  "\<forall>c\<in>set cs. \<not> skipped c \<longrightarrow> (\<forall>m. edges c s = Some m \<longrightarrow> m t = None) \<Longrightarrow>
   getEdgeInfo_from cs s t = Inl (EdgeNotFound s t) \<or> getEdgeInfo_from cs s t = Inl (SourceFoundButNoEdge s t)"
  by (induction cs) (auto split: option.splits)

lemma getEdgeInfo_from_present:
  "find (\<lambda>c. \<not> skipped c \<and> edges c s \<noteq> None) cs = Some c \<Longrightarrow> edges c s = Some m \<Longrightarrow>
   getEdgeInfo_from cs s t = (case m t of Some vals \<Rightarrow> Inr vals | None \<Rightarrow> Inl (SourceFoundButNoEdge s t))"
  by (induction cs) (auto split: option.splits if_splits)

lemma findPattern_None:
  "findPattern k ps i = None \<longleftrightarrow> (\<forall>p\<in>set ps. \<not> strict_eq_num (arr_get p k) i)"
  by (induction ps) auto

lemma findPattern_Some:
  "findPattern k ps i = Some p \<Longrightarrow> p \<in> set ps \<and> strict_eq_num (arr_get p k) i"
  by (induction ps) (auto split: if_splits)

lemma getPatternInfo_from_absent:
  "\<forall>c\<in>set cs. \<not> skipped c \<longrightarrow> (\<forall>p\<in>set (patts c). \<not> strict_eq_num (arr_get p k) i) \<Longrightarrow>
   getPatternInfo_from k cs pid i = Inl (PatternNotFound pid)"
  by (induction cs) (auto split: option.splits simp: findPattern_None dest: findPattern_Some)

lemma getPatternInfo_from_present:
  "\<exists>c\<in>set cs. \<not> skipped c \<and> (\<exists>p\<in>set (patts c). strict_eq_num (arr_get p k) i) \<Longrightarrow>
   \<exists>c\<in>set cs. \<exists>p\<in>set (patts c). \<not> skipped c \<and> strict_eq_num (arr_get p k) i \<and> getPatternInfo_from k cs pid i = Inr p"
proof (induction cs)
  case Nil then show ?case by simp
next
  case (Cons c cs)
  show ?case
  proof (cases "\<not> skipped c \<and> findPattern k (patts c) i \<noteq> None")
    case True
    then obtain p where "findPattern k (patts c) i = Some p" by auto
    with True findPattern_Some[OF this] show ?thesis by auto
  next
    case False
    then have "\<exists>c\<in>set cs. \<not> skipped c \<and> (\<exists>p\<in>set (patts c). strict_eq_num (arr_get p k) i)"
      using Cons.prems by (auto simp: findPattern_None)
    from Cons.IH[OF this] False show ?thesis by (auto split: option.splits)
  qed
qed

lemmas example_defs = example_data_def example_skipped_component_def example_drawn_component_def

text \<open>
  The three cases of C8 on the example data, which has two components: the ranks 1/2 and 0
  are refused as not positive integers, rank 3 is too large, rank 2 is accepted.
\<close>

theorem validateComponentRank_spec_witness:
  "validateComponentRank example_data (Fin (1/2)) = Inl (RankNotPositiveInteger (Fin (1/2)))
   \<and> validateComponentRank example_data (Fin 0) = Inl (RankNotPositiveInteger (Fin 0))
   \<and> validateComponentRank example_data (Fin 3) = Inl (RankTooLarge (Fin 3) 2)
   \<and> validateComponentRank example_data (Fin 2) = Inr True"
proof -
  have nc: "numComponents example_data = 2"
    by (simp add: numComponents_def example_data_def)
  have half: "\<forall>k::int. Fin (1/2) \<noteq> Fin (of_int k)"
  proof
    fix k :: int
    have "(1::real) \<noteq> 2 * of_int k"
    proof
      assume "(1::real) = 2 * of_int k"
      then have "(1::real) = of_int (2 * k)" by simp
      then have "(1::int) = 2 * k" using of_int_eq_iff[of 1 "2 * k", where ?'a = real] by simp
      then show False by presburger
    qed
    then show "Fin (1/2) \<noteq> Fin (of_int k)" by (simp add: field_simps)
  qed
  have zero: "\<exists>k::int. k \<le> 0 \<and> Fin 0 = Fin (of_int k)"
    by (rule exI[of _ 0]) simp
  note A = validateComponentRank_spec[THEN conjunct1, rule_format]
  note B = validateComponentRank_spec[THEN conjunct2, THEN conjunct1, rule_format]
  note C = validateComponentRank_spec[THEN conjunct2, THEN conjunct2, rule_format]
  have a: "validateComponentRank example_data (Fin (1/2)) = Inl (RankNotPositiveInteger (Fin (1/2)))"
    by (rule A) (use half in blast)
  have b: "validateComponentRank example_data (Fin 0) = Inl (RankNotPositiveInteger (Fin 0))"
    by (rule A) (use zero in blast)
  have "validateComponentRank example_data (Fin 3) = Inl (RankTooLarge (Fin 3) (numComponents example_data))"
    by (rule B[of _ 3]) (simp add: nc)
  then have c: "validateComponentRank example_data (Fin 3) = Inl (RankTooLarge (Fin 3) 2)"
    by (simp only: nc)
  have e: "validateComponentRank example_data (Fin 2) = Inr True"
    by (rule C[of _ 2]) (simp add: nc)
  show ?thesis using a b c e by blast
qed

lemma laidOut_set: "set (laidOut d) = {c \<in> set (components d). \<not> skipped c}"
  by (auto simp: laidOut_def)

text \<open>
  Claim C9, as the code has it. Each lookup visits the laid-out components only, in order.
  A node ID held by none of them makes \<open>getNodeInfo\<close> and \<open>getNodeName\<close> throw the
  not-found error; one held by some of them makes \<open>getNodeInfo\<close> return a stored attribute
  array of that ID and \<open>getNodeName\<close> its name entry. An edge held by no laid-out
  component makes \<open>getEdgeInfo\<close> throw one of its two not-found errors; when the first
  laid-out component that lists the source holds the edge, its attribute array is
  returned. A pattern ID that \<open>isValidInteger\<close> refuses makes \<open>getPatternInfo\<close> throw
  the not-an-integer error; an accepted one throws the not-found error when no laid-out
  component has a pattern with that number, and returns a stored pattern array with that
  number otherwise.
\<close>

theorem lookups_search_laid_out:
  "((\<forall>c\<in>set (laidOut d). nodes c n = None) \<longrightarrow>
      getNodeInfo d n = Inl (NodeNotFound n) \<and> getNodeName d n = Inl (NodeNotFound n))
   \<and> ((\<exists>c\<in>set (laidOut d). nodes c n \<noteq> None) \<longrightarrow>
      (\<exists>c\<in>set (laidOut d). \<exists>vals. nodes c n = Some vals \<and> getNodeInfo d n = Inr vals
          \<and> getNodeName d n = Inr (arr_get vals (node_attrs_name d))))
   \<and> ((\<forall>c\<in>set (laidOut d). \<forall>m. edges c s = Some m \<longrightarrow> m t = None) \<longrightarrow>
      (\<exists>e. getEdgeInfo d s t = Inl e \<and> is_not_found e))
   \<and> (find (\<lambda>c. edges c s \<noteq> None) (laidOut d) = Some c0 \<and> edges c0 s = Some m0 \<and> m0 t = Some vals0 \<longrightarrow>
      getEdgeInfo d s t = Inr vals0)
   \<and> (\<not> isValidInteger pid \<longrightarrow>
      getPatternInfo isValidInteger parseInt d pid = Inl (PatternIdNotInteger pid))
   \<and> (isValidInteger pid \<and>
       (\<forall>c\<in>set (laidOut d). \<forall>p\<in>set (patts c).
           \<not> strict_eq_num (arr_get p (patt_attrs_pattern_id d)) (parseInt pid)) \<longrightarrow>
      getPatternInfo isValidInteger parseInt d pid = Inl (PatternNotFound pid))
   \<and> (isValidInteger pid \<and>
       (\<exists>c\<in>set (laidOut d). \<exists>p\<in>set (patts c).
           strict_eq_num (arr_get p (patt_attrs_pattern_id d)) (parseInt pid)) \<longrightarrow>
      (\<exists>c\<in>set (laidOut d). \<exists>p\<in>set (patts c).
           strict_eq_num (arr_get p (patt_attrs_pattern_id d)) (parseInt pid)
           \<and> getPatternInfo isValidInteger parseInt d pid = Inr p))"
proof (intro conjI impI)
  assume "\<forall>c\<in>set (laidOut d). nodes c n = None"
  then have h: "\<forall>c\<in>set (components d). \<not> skipped c \<longrightarrow> nodes c n = None"
    by (simp add: laidOut_set)
  show "getNodeInfo d n = Inl (NodeNotFound n)"
    unfolding getNodeInfo_def by (rule getNodeInfo_from_absent[OF h])
  show "getNodeName d n = Inl (NodeNotFound n)"
    unfolding getNodeName_def by (rule getNodeName_from_absent[OF h])
next
  assume "\<exists>c\<in>set (laidOut d). nodes c n \<noteq> None"
  then have "\<exists>c\<in>set (components d). \<not> skipped c \<and> nodes c n \<noteq> None"
    unfolding laidOut_set by blast
  from getNodeInfo_from_present[OF this, of "node_attrs_name d"]
  show "\<exists>c\<in>set (laidOut d). \<exists>vals. nodes c n = Some vals \<and> getNodeInfo d n = Inr vals
          \<and> getNodeName d n = Inr (arr_get vals (node_attrs_name d))"
    unfolding getNodeInfo_def getNodeName_def laidOut_set by blast
next
  assume "\<forall>c\<in>set (laidOut d). \<forall>m. edges c s = Some m \<longrightarrow> m t = None"
  then have "\<forall>c\<in>set (components d). \<not> skipped c \<longrightarrow> (\<forall>m. edges c s = Some m \<longrightarrow> m t = None)"
    by (simp add: laidOut_set)
  from getEdgeInfo_from_absent[OF this]
  show "\<exists>e. getEdgeInfo d s t = Inl e \<and> is_not_found e"
    unfolding getEdgeInfo_def by auto
next
  assume a: "find (\<lambda>c. edges c s \<noteq> None) (laidOut d) = Some c0 \<and> edges c0 s = Some m0 \<and> m0 t = Some vals0"
  have f: "find (\<lambda>c. edges c s \<noteq> None) (filter (\<lambda>c. \<not> skipped c) cs)
        = find (\<lambda>c. \<not> skipped c \<and> edges c s \<noteq> None) cs" for cs
    by (induction cs) auto
  from a have "find (\<lambda>c. edges c s \<noteq> None) (filter (\<lambda>c. \<not> skipped c) (components d)) = Some c0"
    unfolding laidOut_def by blast
  then have "find (\<lambda>c. \<not> skipped c \<and> edges c s \<noteq> None) (components d) = Some c0"
    unfolding f .
  from getEdgeInfo_from_present[OF this, of m0 t] a
  show "getEdgeInfo d s t = Inr vals0"
    unfolding getEdgeInfo_def by simp
next
  assume "\<not> isValidInteger pid"
  then show "getPatternInfo isValidInteger parseInt d pid = Inl (PatternIdNotInteger pid)"
    by (simp add: getPatternInfo_def)
next
  assume a: "isValidInteger pid \<and>
       (\<forall>c\<in>set (laidOut d). \<forall>p\<in>set (patts c).
           \<not> strict_eq_num (arr_get p (patt_attrs_pattern_id d)) (parseInt pid))"
  then have "\<forall>c\<in>set (components d). \<not> skipped c \<longrightarrow>
      (\<forall>p\<in>set (patts c). \<not> strict_eq_num (arr_get p (patt_attrs_pattern_id d)) (parseInt pid))"
    by (simp add: laidOut_set)
  from getPatternInfo_from_absent[OF this] a
  show "getPatternInfo isValidInteger parseInt d pid = Inl (PatternNotFound pid)"
    by (simp add: getPatternInfo_def)
next
  assume a: "isValidInteger pid \<and>
       (\<exists>c\<in>set (laidOut d). \<exists>p\<in>set (patts c).
           strict_eq_num (arr_get p (patt_attrs_pattern_id d)) (parseInt pid))"
  then have "\<exists>c\<in>set (components d). \<not> skipped c \<and>
      (\<exists>p\<in>set (patts c). strict_eq_num (arr_get p (patt_attrs_pattern_id d)) (parseInt pid))"
    unfolding laidOut_set by blast
  from getPatternInfo_from_present[OF this, of pid] a
  show "\<exists>c\<in>set (laidOut d). \<exists>p\<in>set (patts c).
           strict_eq_num (arr_get p (patt_attrs_pattern_id d)) (parseInt pid)
           \<and> getPatternInfo isValidInteger parseInt d pid = Inr p"
    unfolding getPatternInfo_def laidOut_set by auto
qed

text \<open>
  Claim C10. The by-ID lookups search only the components that are not marked skipped:
  each gives the result it gives on the data with the skipped components taken out, and
  for an element that occurs in skipped components only, the lookup throws the not-found
  error (for a pattern: under an ID that \<open>isValidInteger\<close> accepts).
\<close>

theorem lookups_skip_skipped:
  "getNodeInfo d n = getNodeInfo (d\<lparr>components := laidOut d\<rparr>) n
   \<and> getNodeName d n = getNodeName (d\<lparr>components := laidOut d\<rparr>) n
   \<and> getEdgeInfo d s t = getEdgeInfo (d\<lparr>components := laidOut d\<rparr>) s t
   \<and> getPatternInfo isValidInteger parseInt d pid
       = getPatternInfo isValidInteger parseInt (d\<lparr>components := laidOut d\<rparr>) pid
   \<and> ((\<forall>c\<in>set (components d). nodes c n \<noteq> None \<longrightarrow> skipped c) \<longrightarrow>
        getNodeInfo d n = Inl (NodeNotFound n) \<and> getNodeName d n = Inl (NodeNotFound n))
   \<and> ((\<forall>c\<in>set (components d). \<forall>m. edges c s = Some m \<and> m t \<noteq> None \<longrightarrow> skipped c) \<longrightarrow>
        (\<exists>e. getEdgeInfo d s t = Inl e \<and> is_not_found e))
   \<and> (isValidInteger pid \<and>
       (\<forall>c\<in>set (components d). \<forall>p\<in>set (patts c).
           strict_eq_num (arr_get p (patt_attrs_pattern_id d)) (parseInt pid) \<longrightarrow> skipped c) \<longrightarrow>
        getPatternInfo isValidInteger parseInt d pid = Inl (PatternNotFound pid))"
proof (intro conjI impI)
  show "getNodeInfo d n = getNodeInfo (d\<lparr>components := laidOut d\<rparr>) n"
    by (simp add: getNodeInfo_def laidOut_def getNodeInfo_from_filter)
  show "getNodeName d n = getNodeName (d\<lparr>components := laidOut d\<rparr>) n"
    by (simp add: getNodeName_def laidOut_def getNodeName_from_filter)
  show "getEdgeInfo d s t = getEdgeInfo (d\<lparr>components := laidOut d\<rparr>) s t"
    by (simp add: getEdgeInfo_def laidOut_def getEdgeInfo_from_filter)
  show "getPatternInfo isValidInteger parseInt d pid
       = getPatternInfo isValidInteger parseInt (d\<lparr>components := laidOut d\<rparr>) pid"
    by (simp add: getPatternInfo_def laidOut_def getPatternInfo_from_filter)
next
  assume "\<forall>c\<in>set (components d). nodes c n \<noteq> None \<longrightarrow> skipped c"
  then have h: "\<forall>c\<in>set (components d). \<not> skipped c \<longrightarrow> nodes c n = None" by blast
  show "getNodeInfo d n = Inl (NodeNotFound n)"
    unfolding getNodeInfo_def by (rule getNodeInfo_from_absent[OF h])
  show "getNodeName d n = Inl (NodeNotFound n)"
    unfolding getNodeName_def by (rule getNodeName_from_absent[OF h])
next
  assume "\<forall>c\<in>set (components d). \<forall>m. edges c s = Some m \<and> m t \<noteq> None \<longrightarrow> skipped c"
  then have "\<forall>c\<in>set (components d). \<not> skipped c \<longrightarrow> (\<forall>m. edges c s = Some m \<longrightarrow> m t = None)"
    by blast
  from getEdgeInfo_from_absent[OF this]
  show "\<exists>e. getEdgeInfo d s t = Inl e \<and> is_not_found e"
    unfolding getEdgeInfo_def by auto
next
  assume a: "isValidInteger pid \<and>
       (\<forall>c\<in>set (components d). \<forall>p\<in>set (patts c).
           strict_eq_num (arr_get p (patt_attrs_pattern_id d)) (parseInt pid) \<longrightarrow> skipped c)"
  then have "\<forall>c\<in>set (components d). \<not> skipped c \<longrightarrow>
      (\<forall>p\<in>set (patts c). \<not> strict_eq_num (arr_get p (patt_attrs_pattern_id d)) (parseInt pid))"
    by blast
  from getPatternInfo_from_absent[OF this] a
  show "getPatternInfo isValidInteger parseInt d pid = Inl (PatternNotFound pid)"
    by (simp add: getPatternInfo_def)
qed

lemma laidOut_example: "laidOut example_data = [example_drawn_component]"
  by (simp add: laidOut_def example_defs)

lemma example_positions:
  "node_attrs_name example_data = 0" "patt_attrs_pattern_id example_data = 0"
  by (simp_all add: example_data_def)

text \<open>
  Claim C9 as stated fails: node 7 is in the loaded data, in the skipped component, and
  both node lookups throw the not-found error instead of returning its record.
\<close>

theorem lookup_present_counterexample:
  "example_skipped_component \<in> set (components example_data)
   \<and> nodes example_skipped_component ''7'' = Some [JStr ''contig_7'']
   \<and> getNodeInfo example_data ''7'' = Inl (NodeNotFound ''7'')
   \<and> getNodeName example_data ''7'' = Inl (NodeNotFound ''7'')"
  by (simp add: getNodeInfo_def getNodeName_def example_defs)

text \<open>The cases of the amended C9 on the example data.\<close>

theorem lookups_search_laid_out_witness:
  "getNodeInfo example_data ''7'' = Inl (NodeNotFound ''7'')
   \<and> getNodeInfo example_data ''1'' = Inr [JStr ''contig_1'']
   \<and> getNodeName example_data ''1'' = Inr (JStr ''contig_1'')
   \<and> (\<exists>e. getEdgeInfo example_data ''7'' ''7'' = Inl e \<and> is_not_found e)
   \<and> getEdgeInfo example_data ''1'' ''2'' = Inr [JNum (Fin 1)]
   \<and> getPatternInfo example_isValidInteger example_parseInt example_data ''x''
        = Inl (PatternIdNotInteger ''x'')
   \<and> getPatternInfo example_isValidInteger example_parseInt example_data ''3''
        = Inl (PatternNotFound ''3'')
   \<and> getPatternInfo example_isValidInteger example_parseInt example_data ''0''
        = Inr [JNum (Fin 0), JStr ''chain'']"
proof -
  note T = lookups_search_laid_out[where d = example_data]
  have 1: "getNodeInfo example_data ''7'' = Inl (NodeNotFound ''7'')"
    using T[where n = "''7''", THEN conjunct1]
    by (simp add: laidOut_example) (simp add: example_drawn_component_def)
  have "\<exists>c\<in>set (laidOut example_data). \<exists>vals. nodes c ''1'' = Some vals
          \<and> getNodeInfo example_data ''1'' = Inr vals
          \<and> getNodeName example_data ''1'' = Inr (arr_get vals (node_attrs_name example_data))"
    by (rule T[where n = "''1''", THEN conjunct2, THEN conjunct1, rule_format])
       (simp add: laidOut_example example_drawn_component_def)
  then have 2: "getNodeInfo example_data ''1'' = Inr [JStr ''contig_1'']
     \<and> getNodeName example_data ''1'' = Inr (JStr ''contig_1'')"
    by (auto simp: laidOut_example example_positions example_drawn_component_def arr_get_def)
  have 3: "\<exists>e. getEdgeInfo example_data ''7'' ''7'' = Inl e \<and> is_not_found e"
    by (rule T[where s = "''7''" and t = "''7''", THEN conjunct2, THEN conjunct2, THEN conjunct1, rule_format])
       (simp add: laidOut_example example_drawn_component_def)
  have 4: "getEdgeInfo example_data ''1'' ''2'' = Inr [JNum (Fin 1)]"
    by (rule T[where s = "''1''" and t = "''2''" and ?c0.0 = example_drawn_component
            and ?m0.0 = "[''2'' \<mapsto> [JNum (Fin 1)]]",
            THEN conjunct2, THEN conjunct2, THEN conjunct2, THEN conjunct1, rule_format])
       (simp add: laidOut_example, simp add: example_drawn_component_def)
  note P = T[where isValidInteger = example_isValidInteger and parseInt = example_parseInt,
            THEN conjunct2, THEN conjunct2, THEN conjunct2, THEN conjunct2]
  have 5: "getPatternInfo example_isValidInteger example_parseInt example_data ''x''
        = Inl (PatternIdNotInteger ''x'')"
    by (rule P[THEN conjunct1, rule_format]) (simp add: example_isValidInteger_def)
  have 6: "getPatternInfo example_isValidInteger example_parseInt example_data ''3''
        = Inl (PatternNotFound ''3'')"
    by (rule P[THEN conjunct2, THEN conjunct1, rule_format])
       (simp add: example_isValidInteger_def example_parseInt_def laidOut_example example_positions,
        simp add: example_drawn_component_def arr_get_def)
  have "\<exists>c\<in>set (laidOut example_data). \<exists>p\<in>set (patts c).
           strict_eq_num (arr_get p (patt_attrs_pattern_id example_data)) (example_parseInt ''0'')
           \<and> getPatternInfo example_isValidInteger example_parseInt example_data ''0'' = Inr p"
    by (rule P[THEN conjunct2, THEN conjunct2, rule_format])
       (simp add: example_isValidInteger_def example_parseInt_def laidOut_example example_positions,
        simp add: example_drawn_component_def arr_get_def)
  then have 7: "getPatternInfo example_isValidInteger example_parseInt example_data ''0''
        = Inr [JNum (Fin 0), JStr ''chain'']"
    by (auto simp: laidOut_example example_drawn_component_def)
  show ?thesis using 1 2 3 4 5 6 7 by blast
qed

text \<open>
  C10 on the example data: node 7, edge 7 to 7 and pattern 3 occur in the skipped component only.
\<close>

theorem lookups_skip_skipped_witness:
  "getNodeInfo example_data ''7'' = Inl (NodeNotFound ''7'')
   \<and> getNodeName example_data ''7'' = Inl (NodeNotFound ''7'')
   \<and> (\<exists>e. getEdgeInfo example_data ''7'' ''7'' = Inl e \<and> is_not_found e)
   \<and> getPatternInfo example_isValidInteger example_parseInt example_data ''3''
        = Inl (PatternNotFound ''3'')"
proof -
  note T = lookups_skip_skipped[where d = example_data
             and isValidInteger = example_isValidInteger and parseInt = example_parseInt,
             THEN conjunct2, THEN conjunct2, THEN conjunct2, THEN conjunct2]
  have 1: "getNodeInfo example_data ''7'' = Inl (NodeNotFound ''7'')
            \<and> getNodeName example_data ''7'' = Inl (NodeNotFound ''7'')"
    by (rule T[THEN conjunct1, rule_format]) (auto simp: example_defs)
  have 2: "\<exists>e. getEdgeInfo example_data ''7'' ''7'' = Inl e \<and> is_not_found e"
    by (rule T[THEN conjunct2, THEN conjunct1, rule_format]) (auto simp: example_defs)
  have 3: "getPatternInfo example_isValidInteger example_parseInt example_data ''3''
        = Inl (PatternNotFound ''3'')"
    by (rule T[THEN conjunct2, THEN conjunct2, rule_format])
       (auto simp: example_isValidInteger_def example_parseInt_def example_defs arr_get_def)
  show ?thesis using 1 2 3 by blast
qed

section \<open>Control points: properties\<close>

lemma convert_loop_complex:
  "fst (convert_loop distance pld big srcPos tgtPos ctrlPts dy p (c, ds, ws)) =
     (c \<or> (\<exists>k. p + 2 * k < length ctrlPts \<and>
              js_gt (js_abs (pld (currPt ctrlPts dy (p + 2 * k)) srcPos tgtPos)) CTRL_PT_DIST_EPSILON))"
proof (induction distance pld big srcPos tgtPos ctrlPts dy p "(c, ds, ws)"
        arbitrary: c ds ws rule: convert_loop.induct)
  case (1 distance pld big srcPos tgtPos ctrlPts dy p c ds ws)
  show ?case
  proof (cases "p < length ctrlPts")
    case False
    then show ?thesis by (subst convert_loop.simps) simp
  next
    case True
    let ?hit = "\<lambda>q. js_gt (js_abs (pld (currPt ctrlPts dy q) srcPos tgtPos)) CTRL_PT_DIST_EPSILON"
    have split: "(\<exists>k. p + 2 * k < length ctrlPts \<and> ?hit (p + 2 * k)) \<longleftrightarrow>
                 (?hit p \<or> (\<exists>k. p + 2 + 2 * k < length ctrlPts \<and> ?hit (p + 2 + 2 * k)))"
    proof
      assume "\<exists>k. p + 2 * k < length ctrlPts \<and> ?hit (p + 2 * k)"
      then obtain k where k: "p + 2 * k < length ctrlPts" "?hit (p + 2 * k)" by blast
      show "?hit p \<or> (\<exists>k. p + 2 + 2 * k < length ctrlPts \<and> ?hit (p + 2 + 2 * k))"
      proof (cases k)
        case 0 with k show ?thesis by simp
      next
        case (Suc j)
        with k have "p + 2 + 2 * j < length ctrlPts \<and> ?hit (p + 2 + 2 * j)" by simp
        then show ?thesis by blast
      qed
    next
      assume "?hit p \<or> (\<exists>k. p + 2 + 2 * k < length ctrlPts \<and> ?hit (p + 2 + 2 * k))"
      then show "\<exists>k. p + 2 * k < length ctrlPts \<and> ?hit (p + 2 * k)"
      proof
        assume "?hit p"
        with True have "p + 2 * 0 < length ctrlPts \<and> ?hit (p + 2 * 0)" by simp
        then show ?thesis by blast
      next
        assume "\<exists>k. p + 2 + 2 * k < length ctrlPts \<and> ?hit (p + 2 + 2 * k)"
        then obtain k where "p + 2 + 2 * k < length ctrlPts \<and> ?hit (p + 2 + 2 * k)" by blast
        then have "p + 2 * Suc k < length ctrlPts \<and> ?hit (p + 2 * Suc k)" by simp
        then show ?thesis by blast
      qed
    qed
    show ?thesis
      apply (subst convert_loop.simps)
      apply (simp only: True if_True Let_def)
      apply (subst "1.hyps"[OF True refl refl refl refl refl])
      apply (subst split)
      apply auto
      done
  qed
qed

lemma upt_Suc_shift: "[0..<Suc m] = 0 # map Suc [0..<m]"
proof -
  have "[0..<Suc m] = 0 # [Suc 0..<Suc m]" by (rule upt_conv_Cons) simp
  then show ?thesis by (simp only: map_Suc_upt)
qed

lemma convert_loop_weights:
  "snd (snd (convert_loop distance pld big srcPos tgtPos ctrlPts dy p (c, ds, ws))) =
     ws @ concat (map (\<lambda>k. toFixed2 big (rectifyWeight (length ctrlPts) (p + 2 * k)
                    (ctrlPtWeight distance pld srcPos tgtPos (currPt ctrlPts dy (p + 2 * k)))) @ '' '')
                  [0..<(length ctrlPts + 1 - p) div 2])"
proof (induction distance pld big srcPos tgtPos ctrlPts dy p "(c, ds, ws)"
        arbitrary: c ds ws rule: convert_loop.induct)
  case (1 distance pld big srcPos tgtPos ctrlPts dy p c ds ws)
  show ?case
  proof (cases "p < length ctrlPts")
    case False
    then have "(length ctrlPts + 1 - p) div 2 = 0" by simp
    with False show ?thesis by (subst convert_loop.simps) simp
  next
    case True
    then have n: "(length ctrlPts + 1 - p) div 2 = Suc ((length ctrlPts + 1 - (p + 2)) div 2)"
      by presburger
    show ?thesis
      apply (subst convert_loop.simps)
      apply (simp only: True if_True Let_def)
      apply (subst "1.hyps"[OF True refl refl refl refl refl])
      apply (simp only: n upt_Suc_shift)
      apply (simp add: comp_def)
      done
  qed
qed

lemma complex_iff_ctrl_pt_beyond_epsilon:
  "complex (convertCtrlPtsToDistsAndWeights distance pointToLineDistance big srcPos tgtPos ctrlPts dx dy)
     \<longleftrightarrow> (\<exists>p. even p \<and> p < length ctrlPts \<and>
            js_gt (js_abs (pointToLineDistance (currPt ctrlPts dy p) srcPos tgtPos)) CTRL_PT_DIST_EPSILON)"
proof -
  obtain c ds ws where r:
    "convert_loop distance pointToLineDistance big srcPos tgtPos ctrlPts dy 0 (False, [], []) = (c, ds, ws)"
    by (metis prod_cases3)
  have "c = fst (convert_loop distance pointToLineDistance big srcPos tgtPos ctrlPts dy 0 (False, [], []))"
    by (simp add: r)
  also have "\<dots> \<longleftrightarrow> (\<exists>k. 2 * k < length ctrlPts \<and>
      js_gt (js_abs (pointToLineDistance (currPt ctrlPts dy (2 * k)) srcPos tgtPos)) CTRL_PT_DIST_EPSILON)"
    by (simp add: convert_loop_complex)
  also have "\<dots> \<longleftrightarrow> (\<exists>p. even p \<and> p < length ctrlPts \<and>
            js_gt (js_abs (pointToLineDistance (currPt ctrlPts dy p) srcPos tgtPos)) CTRL_PT_DIST_EPSILON)"
  proof
    assume "\<exists>k. 2 * k < length ctrlPts \<and>
      js_gt (js_abs (pointToLineDistance (currPt ctrlPts dy (2 * k)) srcPos tgtPos)) CTRL_PT_DIST_EPSILON"
    then obtain k where "even (2 * k) \<and> 2 * k < length ctrlPts \<and>
      js_gt (js_abs (pointToLineDistance (currPt ctrlPts dy (2 * k)) srcPos tgtPos)) CTRL_PT_DIST_EPSILON"
      by auto
    then show "\<exists>p. even p \<and> p < length ctrlPts \<and>
            js_gt (js_abs (pointToLineDistance (currPt ctrlPts dy p) srcPos tgtPos)) CTRL_PT_DIST_EPSILON"
      by blast
  next
    assume "\<exists>p. even p \<and> p < length ctrlPts \<and>
            js_gt (js_abs (pointToLineDistance (currPt ctrlPts dy p) srcPos tgtPos)) CTRL_PT_DIST_EPSILON"
    then show "\<exists>k. 2 * k < length ctrlPts \<and>
      js_gt (js_abs (pointToLineDistance (currPt ctrlPts dy (2 * k)) srcPos tgtPos)) CTRL_PT_DIST_EPSILON"
      by (auto elim!: evenE)
  qed
  finally show ?thesis
    by (simp add: convertCtrlPtsToDistsAndWeights_def r)
qed

text \<open>
  The weights string is the trimmed sequence of the rectified weights of the control
  points, each printed by \<open>toFixed(2)\<close>.
\<close>

lemma weights_as_printed:
  "weights (convertCtrlPtsToDistsAndWeights distance pointToLineDistance big srcPos tgtPos ctrlPts dx dy)
     = js_trim (concat (map (\<lambda>k. toFixed2 big (rectifyWeight (length ctrlPts) (2 * k)
                    (ctrlPtWeight distance pointToLineDistance srcPos tgtPos (currPt ctrlPts dy (2 * k)))) @ '' '')
                  [0..<(length ctrlPts + 1) div 2]))"
proof -
  obtain c ds ws where r:
    "convert_loop distance pointToLineDistance big srcPos tgtPos ctrlPts dy 0 (False, [], []) = (c, ds, ws)"
    by (metis prod_cases3)
  have "ws = snd (snd (convert_loop distance pointToLineDistance big srcPos tgtPos ctrlPts dy 0 (False, [], [])))"
    by (simp add: r)
  then have "ws = concat (map (\<lambda>k. toFixed2 big (rectifyWeight (length ctrlPts) (2 * k)
                    (ctrlPtWeight distance pointToLineDistance srcPos tgtPos (currPt ctrlPts dy (2 * k)))) @ '' '')
                  [0..<(length ctrlPts + 1) div 2])"
    by (simp add: convert_loop_weights)
  then show ?thesis
    by (simp add: convertCtrlPtsToDistsAndWeights_def r)
qed

text \<open>
  Rectifying moves a weight of exactly 0 of the first control point to 0.01 and a weight
  of exactly 1 of the last control point to 0.99, and leaves every other weight as it is.
\<close>

lemma rectifyWeight_cases:
  "rectifyWeight len p w =
     (if p = 0 \<and> w = Fin 0 then Fin (1 / 100)
      else if int p = int len - 2 \<and> w = Fin 1 then Fin (99 / 100)
      else w)"
  by (cases w) (auto simp: rectifyWeight_def)

lemma sqrt_25: "sqrt 25 = 5" using real_sqrt_abs2[of 5] by simp
lemma sqrt_100: "sqrt 100 = 10" using real_sqrt_abs2[of 10] by simp

lemma decimal_0: "decimal 0 = ''0''"
  by (simp add: decimal.simps digit_char_def)

lemma toFixed2_half: "toFixed2 big (Fin (1/2)) = ''0.50''"
  by (simp add: toFixed2_def decimal_0 digit_char_def Let_def)

lemma toFixed2_zero: "toFixed2 big (Fin 0) = ''0.00''"
  by (simp add: toFixed2_def decimal_0 digit_char_def Let_def)

lemma ex_pt0: "currPt example_ctrlPts (Fin 0) 0 = (Fin 5, Fin 0)"
  by (simp add: currPt_def example_ctrlPts_def arr_num_def)
lemma ex_pt2: "currPt example_ctrlPts (Fin 0) 2 = (Fin 0, Fin 0)"
  by (simp add: currPt_def example_ctrlPts_def arr_num_def)
lemma ex_pt4: "currPt example_ctrlPts (Fin 0) 4 = (Fin 5, Fin 0)"
  by (simp add: currPt_def example_ctrlPts_def arr_num_def)

lemma ex_w_mid: "ctrlPtWeight utils_distance utils_pointToLineDistance (Fin 0, Fin 0) (Fin 10, Fin 0) (Fin 0, Fin 0) = Fin 0"
  by (simp add: ctrlPtWeight_def sqrt_100 Let_def)

lemma ex_w_5: "ctrlPtWeight utils_distance utils_pointToLineDistance (Fin 0, Fin 0) (Fin 10, Fin 0) (Fin 5, Fin 0) = Fin (1/2)"
  by (simp add: ctrlPtWeight_def sqrt_100 sqrt_25 Let_def)

lemma ex_loop: "convert_loop utils_distance utils_pointToLineDistance big (Fin 0, Fin 0) (Fin 10, Fin 0) example_ctrlPts (Fin 0) 0 (False, [], [])
  = (False, ''0.00 0.00 0.00 '', ''0.50 0.00 0.50 '')"
proof -
  have len: "length example_ctrlPts = 6" by (simp add: example_ctrlPts_def)
  note ev = len Let_def rectifyWeight_def CTRL_PT_DIST_EPSILON_def sqrt_100 toFixed2_half toFixed2_zero
  have "convert_loop utils_distance utils_pointToLineDistance big (Fin 0, Fin 0) (Fin 10, Fin 0) example_ctrlPts (Fin 0) 0 (False, [], [])
      = convert_loop utils_distance utils_pointToLineDistance big (Fin 0, Fin 0) (Fin 10, Fin 0) example_ctrlPts (Fin 0) 2 (False, ''0.00 '', ''0.50 '')"
    by (subst convert_loop.simps) (simp add: ev ex_pt0 ex_w_5 numeral_2_eq_2[symmetric])
  also have "\<dots> = convert_loop utils_distance utils_pointToLineDistance big (Fin 0, Fin 0) (Fin 10, Fin 0) example_ctrlPts (Fin 0) 4 (False, ''0.00 0.00 '', ''0.50 0.00 '')"
    by (subst convert_loop.simps) (simp add: ev ex_pt2 ex_w_mid)
  also have "\<dots> = convert_loop utils_distance utils_pointToLineDistance big (Fin 0, Fin 0) (Fin 10, Fin 0) example_ctrlPts (Fin 0) 6 (False, ''0.00 0.00 0.00 '', ''0.50 0.00 0.50 '')"
    by (subst convert_loop.simps) (simp add: ev ex_pt4 ex_w_5)
  also have "\<dots> = (False, ''0.00 0.00 0.00 '', ''0.50 0.00 0.50 '')"
    by (subst convert_loop.simps) (simp add: len)
  finally show ?thesis .
qed

lemma js_gt_asym: "js_gt a b \<Longrightarrow> \<not> js_gt b a"
  by (cases a; cases b) auto

text \<open>
  Claim C6. For every source position, target position and control-point Array, the edge
  is classified as complex exactly when the distance to the line from source to target,
  as \<open>pointToLineDistance\<close> gives it, of some control point exceeds
  \<open>CTRL_PT_DIST_EPSILON\<close> in absolute value; when every control point stays below the
  threshold the edge is not complex. The threshold is 5.
\<close>

theorem complex_iff_beyond_epsilon:
  "(complex (convertCtrlPtsToDistsAndWeights distance pointToLineDistance big srcPos tgtPos ctrlPts dx dy)
     \<longleftrightarrow> (\<exists>p. even p \<and> p < length ctrlPts \<and>
            js_gt (js_abs (pointToLineDistance (currPt ctrlPts dy p) srcPos tgtPos)) CTRL_PT_DIST_EPSILON))
   \<and> ((\<forall>p. even p \<and> p < length ctrlPts \<longrightarrow>
            js_gt CTRL_PT_DIST_EPSILON (js_abs (pointToLineDistance (currPt ctrlPts dy p) srcPos tgtPos)))
        \<longrightarrow> \<not> complex (convertCtrlPtsToDistsAndWeights distance pointToLineDistance big srcPos tgtPos ctrlPts dx dy))
   \<and> CTRL_PT_DIST_EPSILON = Fin 5"
  using complex_iff_ctrl_pt_beyond_epsilon[of distance pointToLineDistance big srcPos tgtPos ctrlPts dx dy]
  by (auto dest: js_gt_asym simp: CTRL_PT_DIST_EPSILON_def)

lemma pld_flat0: "utils_pointToLineDistance (currPt example_flat_ctrlPts (Fin 0) 0) (Fin 0, Fin 0) (Fin 10, Fin 0) = Fin 3"
  by (simp add: currPt_def example_flat_ctrlPts_def arr_num_def sqrt_100)
lemma pld_flat2: "utils_pointToLineDistance (currPt example_flat_ctrlPts (Fin 0) 2) (Fin 0, Fin 0) (Fin 10, Fin 0) = Fin (- 3)"
  by (simp add: currPt_def example_flat_ctrlPts_def arr_num_def sqrt_100)
lemma pld_curved2: "utils_pointToLineDistance (currPt example_curved_ctrlPts (Fin 0) 2) (Fin 0, Fin 0) (Fin 10, Fin 0) = Fin (- 6)"
  by (simp add: currPt_def example_curved_ctrlPts_def arr_num_def sqrt_100)

text \<open>
  C6 on the example edge: control points 3 away from the line give a straight edge,
  one control point 6 away gives a complex one.
\<close>

theorem complex_iff_beyond_epsilon_witness:
  "\<not> complex (convertCtrlPtsToDistsAndWeights utils_distance utils_pointToLineDistance example_big
        (Fin 0, Fin 0) (Fin 10, Fin 0) example_flat_ctrlPts (Fin 0) (Fin 0))
   \<and> complex (convertCtrlPtsToDistsAndWeights utils_distance utils_pointToLineDistance example_big
        (Fin 0, Fin 0) (Fin 10, Fin 0) example_curved_ctrlPts (Fin 0) (Fin 0))"
proof
  note T = complex_iff_beyond_epsilon[of utils_distance utils_pointToLineDistance example_big
             "(Fin 0, Fin 0)" "(Fin 10, Fin 0)" example_flat_ctrlPts "Fin 0" "Fin 0"]
  have "\<forall>p. even p \<and> p < length example_flat_ctrlPts \<longrightarrow>
     js_gt CTRL_PT_DIST_EPSILON
       (js_abs (utils_pointToLineDistance (currPt example_flat_ctrlPts (Fin 0) p) (Fin 0, Fin 0) (Fin 10, Fin 0)))"
  proof (intro allI impI)
    fix p :: nat assume "even p \<and> p < length example_flat_ctrlPts"
    then have "p = 0 \<or> p = 2" by (auto simp: example_flat_ctrlPts_def elim!: evenE)
    then show "js_gt CTRL_PT_DIST_EPSILON
       (js_abs (utils_pointToLineDistance (currPt example_flat_ctrlPts (Fin 0) p) (Fin 0, Fin 0) (Fin 10, Fin 0)))"
      by (auto simp: pld_flat0 pld_flat2 CTRL_PT_DIST_EPSILON_def)
  qed
  with T show "\<not> complex (convertCtrlPtsToDistsAndWeights utils_distance utils_pointToLineDistance example_big
        (Fin 0, Fin 0) (Fin 10, Fin 0) example_flat_ctrlPts (Fin 0) (Fin 0))"
    by blast
next
  note T = complex_iff_beyond_epsilon[of utils_distance utils_pointToLineDistance example_big
             "(Fin 0, Fin 0)" "(Fin 10, Fin 0)" example_curved_ctrlPts "Fin 0" "Fin 0"]
  have "even (2::nat) \<and> 2 < length example_curved_ctrlPts \<and>
     js_gt (js_abs (utils_pointToLineDistance (currPt example_curved_ctrlPts (Fin 0) 2) (Fin 0, Fin 0) (Fin 10, Fin 0)))
       CTRL_PT_DIST_EPSILON"
    by (simp add: pld_curved2 CTRL_PT_DIST_EPSILON_def) (simp add: example_curved_ctrlPts_def)
  with T show "complex (convertCtrlPtsToDistsAndWeights utils_distance utils_pointToLineDistance example_big
        (Fin 0, Fin 0) (Fin 10, Fin 0) example_curved_ctrlPts (Fin 0) (Fin 0))"
    by blast
qed

text \<open>
  The middle control point of the first example lies on the source position; its weight
  is exactly 0 and, not being the first, it is printed as such.
\<close>

lemma middle_weight_zero:
  "ctrlPtWeight utils_distance utils_pointToLineDistance (Fin 0, Fin 0) (Fin 10, Fin 0)
      (currPt example_ctrlPts (Fin 0) 2) = Fin 0
   \<and> weights (convertCtrlPtsToDistsAndWeights utils_distance utils_pointToLineDistance example_big
        (Fin 0, Fin 0) (Fin 10, Fin 0) example_ctrlPts (Fin 0) (Fin 0)) = ''0.50 0.00 0.50''"
  by (simp add: ex_pt2 ex_w_mid convertCtrlPtsToDistsAndWeights_def ex_loop js_trim_def is_space_def)

text \<open>
  \<open>toFixed(2)\<close> prints every Number from 0 to below 0.005 as \<open>0.00\<close> and every Number
  from 0.995 to below 1.005 as \<open>1.00\<close>.
\<close>

lemma toFixed2_rounds_to_zero:
  assumes "0 \<le> r" and "r < 1 / 200"
  shows "toFixed2 big (Fin r) = ''0.00''"
proof -
  have "\<lfloor>\<bar>r\<bar> * 100 + 1 / 2\<rfloor> = 0"
    using assms by (intro floor_unique) simp_all
  moreover have "\<bar>r\<bar> < 10 ^ 21" using assms by simp
  ultimately show ?thesis
    using assms by (simp add: toFixed2_def decimal_0 digit_char_def Let_def)
qed

lemma decimal_1: "decimal (Suc 0) = ''1''"
  by (simp add: decimal.simps digit_char_def)

lemma toFixed2_rounds_to_one:
  assumes "199 / 200 \<le> r" and "r < 201 / 200"
  shows "toFixed2 big (Fin r) = ''1.00''"
proof -
  have "\<lfloor>\<bar>r\<bar> * 100 + 1 / 2\<rfloor> = 100"
    using assms by (intro floor_unique) simp_all
  moreover have "\<bar>r\<bar> < 10 ^ 21" using assms by simp
  ultimately show ?thesis
    using assms by (simp add: toFixed2_def decimal_1 digit_char_def Let_def)
qed

lemma sqrt_62500: "sqrt 62500 = 250" using real_sqrt_abs2[of 250] by simp
lemma sqrt_62001: "sqrt 62001 = 249" using real_sqrt_abs2[of 249] by simp

lemma near_pt0: "currPt example_near_ctrlPts (Fin 0) 0 = (Fin 1, Fin 0)"
  by (simp add: currPt_def example_near_ctrlPts_def arr_num_def)
lemma near_pt2: "currPt example_near_ctrlPts (Fin 0) 2 = (Fin 249, Fin 0)"
  by (simp add: currPt_def example_near_ctrlPts_def arr_num_def)

lemma near_pld:
  "utils_pointToLineDistance (Fin 1, Fin 0) (Fin 0, Fin 0) (Fin 250, Fin 0) = Fin 0"
  "utils_pointToLineDistance (Fin 249, Fin 0) (Fin 0, Fin 0) (Fin 250, Fin 0) = Fin 0"
  by (simp_all add: sqrt_62500)

lemma near_w_first:
  "ctrlPtWeight utils_distance utils_pointToLineDistance (Fin 0, Fin 0) (Fin 250, Fin 0) (Fin 1, Fin 0) = Fin (1 / 250)"
  by (simp add: ctrlPtWeight_def sqrt_62500 sqrt_62001 Let_def)

lemma near_w_last:
  "ctrlPtWeight utils_distance utils_pointToLineDistance (Fin 0, Fin 0) (Fin 250, Fin 0) (Fin 249, Fin 0) = Fin (249 / 250)"
  by (simp add: ctrlPtWeight_def sqrt_62500 sqrt_62001 Let_def)

lemma near_loop:
  "convert_loop utils_distance utils_pointToLineDistance big (Fin 0, Fin 0) (Fin 250, Fin 0) example_near_ctrlPts (Fin 0) 0 (False, [], [])
   = (False, ''0.00 0.00 '', ''0.00 1.00 '')"
proof -
  have len: "length example_near_ctrlPts = 4" by (simp add: example_near_ctrlPts_def)
  have z: "toFixed2 big (Fin (1 / 250)) = ''0.00''" by (rule toFixed2_rounds_to_zero) simp_all
  have o: "toFixed2 big (Fin (249 / 250)) = ''1.00''" by (rule toFixed2_rounds_to_one) simp_all
  note ev = len Let_def rectifyWeight_cases CTRL_PT_DIST_EPSILON_def near_pld toFixed2_zero z o
  have "convert_loop utils_distance utils_pointToLineDistance big (Fin 0, Fin 0) (Fin 250, Fin 0) example_near_ctrlPts (Fin 0) 0 (False, [], [])
      = convert_loop utils_distance utils_pointToLineDistance big (Fin 0, Fin 0) (Fin 250, Fin 0) example_near_ctrlPts (Fin 0) 2 (False, ''0.00 '', ''0.00 '')"
    by (subst convert_loop.simps) (simp add: ev near_pt0 near_w_first numeral_2_eq_2[symmetric])
  also have "\<dots> = convert_loop utils_distance utils_pointToLineDistance big (Fin 0, Fin 0) (Fin 250, Fin 0) example_near_ctrlPts (Fin 0) 4 (False, ''0.00 0.00 '', ''0.00 1.00 '')"
    by (subst convert_loop.simps) (simp add: ev near_pt2 near_w_last)
  also have "\<dots> = (False, ''0.00 0.00 '', ''0.00 1.00 '')"
    by (subst convert_loop.simps) (simp add: len)
  finally show ?thesis .
qed

text \<open>
  Claim C7 fails on the edge from \<open>(0, 0)\<close> to \<open>(250, 0)\<close> with the control points
  \<open>(1, 0)\<close> and \<open>(249, 0)\<close>. The weight computed for the first control point is 0.004
  and the one for the last is 0.996. Neither is exactly 0 or exactly 1, so neither is
  rectified, and \<open>toFixed(2)\<close> rounds them: the weights string gives the first control
  point the weight \<open>0.00\<close> and the last one the weight \<open>1.00\<close>.
\<close>

theorem near_end_weights_printed_as_0_and_1:
  "ctrlPtWeight utils_distance utils_pointToLineDistance (Fin 0, Fin 0) (Fin 250, Fin 0)
      (currPt example_near_ctrlPts (Fin 0) 0) = Fin (1 / 250)
   \<and> ctrlPtWeight utils_distance utils_pointToLineDistance (Fin 0, Fin 0) (Fin 250, Fin 0)
      (currPt example_near_ctrlPts (Fin 0) 2) = Fin (249 / 250)
   \<and> rectifyWeight (length example_near_ctrlPts) 0 (Fin (1 / 250)) = Fin (1 / 250)
   \<and> rectifyWeight (length example_near_ctrlPts) 2 (Fin (249 / 250)) = Fin (249 / 250)
   \<and> weights (convertCtrlPtsToDistsAndWeights utils_distance utils_pointToLineDistance example_big
        (Fin 0, Fin 0) (Fin 250, Fin 0) example_near_ctrlPts (Fin 0) (Fin 0)) = ''0.00 1.00''"
  by (simp add: near_pt0 near_pt2 near_w_first near_w_last rectifyWeight_cases
        convertCtrlPtsToDistsAndWeights_def near_loop js_trim_def is_space_def)

section \<open>Patterns: properties\<close>

subsection \<open>The bound of the cascade\<close>

lemma removedNode_hitAt: "removedNode k s xs x \<longleftrightarrow> (\<exists>j\<le>k. hitAt s xs j x)"
proof (induction k arbitrary: x)
  case 0
  show ?case by simp
next
  case (Suc k)
  show ?case
  proof
    assume r: "removedNode (Suc k) s xs x"
    then have ok: "inGraph s x" "\<not> isEdge s x" by simp_all
    from r consider "x \<in> set xs" | y where "parent s x = Some y" "removedNode k s xs y"
      by (auto split: option.splits)
    then show "\<exists>j\<le>Suc k. hitAt s xs j x"
    proof cases
      case 1
      with ok have "hitAt s xs 0 x" by simp
      then show ?thesis by blast
    next
      case 2
      with Suc.IH obtain j where "j \<le> k" "hitAt s xs j y" by blast
      with 2 ok have "Suc j \<le> Suc k \<and> hitAt s xs (Suc j) x" by simp
      then show ?thesis by blast
    qed
  next
    assume "\<exists>j\<le>Suc k. hitAt s xs j x"
    then obtain j where j: "j \<le> Suc k" "hitAt s xs j x" by blast
    show "removedNode (Suc k) s xs x"
    proof (cases j)
      case 0
      with j show ?thesis by simp
    next
      case (Suc i)
      with j obtain y where ok: "inGraph s x" "\<not> isEdge s x" and y: "parent s x = Some y" "hitAt s xs i y"
        by (auto split: option.splits)
      from Suc j have "i \<le> k" by simp
      with y Suc.IH have "removedNode k s xs y" by blast
      with ok y show ?thesis by simp
    qed
  qed
qed

lemma hitAt_ancestor:
  "hitAt s xs j x \<Longrightarrow> i \<le> j \<Longrightarrow> \<exists>y. ancestor s i x = Some y \<and> inGraph s y \<and> hitAt s xs (j - i) y"
proof (induction i arbitrary: x j)
  case 0
  then show ?case by (cases j) auto
next
  case (Suc i)
  then obtain j' where j': "j = Suc j'" by (cases j) auto
  with Suc.prems obtain z where z: "parent s x = Some z" "hitAt s xs j' z"
    by (auto split: option.splits)
  from Suc.prems j' have "i \<le> j'" by simp
  from Suc.IH[OF z(2) this] z j' show ?case by simp
qed

lemma hitAt_shortcut:
  "hitAt s xs j x \<Longrightarrow> a \<le> j \<Longrightarrow> ancestor s a x = Some y \<Longrightarrow> hitAt s xs m y \<Longrightarrow> hitAt s xs (a + m) x"
proof (induction a arbitrary: x j)
  case 0
  then show ?case by simp
next
  case (Suc a)
  then obtain j' where j': "j = Suc j'" by (cases j) auto
  with Suc.prems obtain z where ok: "inGraph s x" "\<not> isEdge s x" and z: "parent s x = Some z" "hitAt s xs j' z"
    by (auto split: option.splits)
  from Suc.prems j' z have "a \<le> j'" "ancestor s a z = Some y" by simp_all
  from Suc.IH[OF z(2) this Suc.prems(4)] ok z show ?case by simp
qed

lemma hitAt_bounded:
  assumes "hitAt s xs j x"
  shows "\<exists>i<length (eles s). hitAt s xs i x"
proof -
  define m where "m = (LEAST i. hitAt s xs i x)"
  have hm: "hitAt s xs m x" unfolding m_def using assms by (rule LeastI)
  have least: "\<And>i. hitAt s xs i x \<Longrightarrow> m \<le> i" unfolding m_def by (rule Least_le)
  have "m < length (eles s)"
  proof (rule ccontr)
    assume "\<not> m < length (eles s)"
    then have big: "length (eles s) \<le> m" by simp
    let ?f = "\<lambda>i. the (ancestor s i x)"
    have sub: "?f ` {0..m} \<subseteq> set (eles s)"
    proof
      fix y assume "y \<in> ?f ` {0..m}"
      then obtain i where i: "i \<le> m" "y = ?f i" by auto
      from hitAt_ancestor[OF hm i(1)] i show "y \<in> set (eles s)" by (auto simp: inGraph_def)
    qed
    have "card (?f ` {0..m}) \<le> card (set (eles s))"
      using sub by (simp add: card_mono)
    also have "\<dots> \<le> length (eles s)" by (rule card_length)
    also have "\<dots> < card {0..m}" using big by simp
    finally have "\<not> inj_on ?f {0..m}" by (rule pigeonhole)
    then obtain a b where ab: "a \<le> m" "b \<le> m" "a < b" "?f a = ?f b"
      by (auto simp: inj_on_def) (metis linorder_neqE_nat)
    from hitAt_ancestor[OF hm ab(1)] obtain ya where ya: "ancestor s a x = Some ya" by blast
    from hitAt_ancestor[OF hm ab(2)] obtain yb where yb: "ancestor s b x = Some yb" "hitAt s xs (m - b) yb"
      by blast
    from ab ya yb have "ya = yb" by simp
    with ya yb have "hitAt s xs (a + (m - b)) x"
      using hitAt_shortcut[OF hm ab(1), of yb "m - b"] by simp
    from least[OF this] ab show False by simp
  qed
  with hm show ?thesis by blast
qed

lemma removedNode_bound:
  "removedNode (length (eles s) + m) s xs x = removedNode (length (eles s)) s xs x"
proof
  assume "removedNode (length (eles s) + m) s xs x"
  then obtain j where "hitAt s xs j x" by (auto simp: removedNode_hitAt)
  from hitAt_bounded[OF this] obtain i where "i < length (eles s)" "hitAt s xs i x" by blast
  then have "i \<le> length (eles s) \<and> hitAt s xs i x" by simp
  then show "removedNode (length (eles s)) s xs x" unfolding removedNode_hitAt by blast
next
  assume "removedNode (length (eles s)) s xs x"
  then obtain j where "j \<le> length (eles s)" "hitAt s xs j x" by (auto simp: removedNode_hitAt)
  then have "j \<le> length (eles s) + m \<and> hitAt s xs j x" by simp
  then show "removedNode (length (eles s) + m) s xs x" unfolding removedNode_hitAt by blast
qed

lemma initPattern_graph [simp]:
  "eles (initPattern q s) = eles s"
  "isEdge (initPattern q s) = isEdge s"
  "removed (initPattern q s) = removed s"
  "source (initPattern q s) = source s"
  "target (initPattern q s) = target s"
  "parent (initPattern q s) = parent s"
  "classes (initPattern q s) = classes s"
  by (simp_all add: initPattern_def Let_def)

lemma initPattern_inGraph [simp]: "inGraph (initPattern q s) = inGraph s"
  by (rule ext) (simp add: inGraph_def)

lemma initPattern_derived [simp]:
  "children (initPattern q s) = children s"
  "incomers (initPattern q s) = incomers s"
  "outgoers (initPattern q s) = outgoers s"
  "connectedEdges (initPattern q s) = connectedEdges s"
  by (rule ext, simp add: children_def incomers_def outgoers_def connectedEdges_def)+

lemma initPattern_maps:
  "incomingEdgeMap (initPattern q s) p =
     (if p = q then map (\<lambda>e. (e, source s e, target s e)) (incomingOf s p) else incomingEdgeMap s p)"
  "outgoingEdgeMap (initPattern q s) p =
     (if p = q then map (\<lambda>e. (e, source s e, target s e)) (outgoingOf s p) else outgoingEdgeMap s p)"
  "interiorEles (initPattern q s) p = (if p = q then interiorOf s p else interiorEles s p)"
  "interiorNodes (initPattern q s) p = (if p = q then children s p else interiorNodes s p)"
  by (simp_all add: initPattern_def Let_def incomingOf_def outgoingOf_def interiorOf_def)

lemma of_initPattern [simp]:
  "incomingOf (initPattern q s) = incomingOf s"
  "outgoingOf (initPattern q s) = outgoingOf s"
  "interiorOf (initPattern q s) = interiorOf s"
  by (rule ext, simp add: incomingOf_def outgoingOf_def interiorOf_def)+

lemma fold_initPattern_graph [simp]:
  "eles (fold initPattern ps s) = eles s"
  "isEdge (fold initPattern ps s) = isEdge s"
  "removed (fold initPattern ps s) = removed s"
  "source (fold initPattern ps s) = source s"
  "target (fold initPattern ps s) = target s"
  "parent (fold initPattern ps s) = parent s"
  "classes (fold initPattern ps s) = classes s"
  by (induction ps arbitrary: s; simp)+

lemma fold_initPattern_maps:
  "incomingEdgeMap (fold initPattern ps s) p =
     (if p \<in> set ps then map (\<lambda>e. (e, source s e, target s e)) (incomingOf s p) else incomingEdgeMap s p)"
  "outgoingEdgeMap (fold initPattern ps s) p =
     (if p \<in> set ps then map (\<lambda>e. (e, source s e, target s e)) (outgoingOf s p) else outgoingEdgeMap s p)"
  "interiorEles (fold initPattern ps s) p = (if p \<in> set ps then interiorOf s p else interiorEles s p)"
  "interiorNodes (fold initPattern ps s) p = (if p \<in> set ps then children s p else interiorNodes s p)"
  by (induction ps arbitrary: s; simp add: initPattern_maps)+

text \<open>
  Claim C1. For every pattern, the incoming and the outgoing edge map that \<open>initPatterns\<close>
  stores have no edge in common: an edge that is among both the incoming and the
  outgoing edges of the pattern's children is in neither map and is among the interior
  elements of the pattern.
\<close>

theorem initPatterns_maps_disjoint:
  "p \<in> set (patterns s) \<Longrightarrow>
   fst ` set (incomingEdgeMap (initPatterns s) p) \<inter> fst ` set (outgoingEdgeMap (initPatterns s) p) = {}
   \<and> (\<forall>e. e \<in> set (incomers s (children s p)) \<and> e \<in> set (outgoers s (children s p)) \<longrightarrow>
          e \<notin> fst ` set (incomingEdgeMap (initPatterns s) p)
        \<and> e \<notin> fst ` set (outgoingEdgeMap (initPatterns s) p)
        \<and> e \<in> set (interiorEles (initPatterns s) p))"
proof -
  assume p: "p \<in> set (patterns s)"
  have i: "fst ` set (incomingEdgeMap (initPatterns s) p) = set (incomingOf s p)"
    using p by (simp add: initPatterns_def fold_initPattern_maps image_comp comp_def)
  have o: "fst ` set (outgoingEdgeMap (initPatterns s) p) = set (outgoingOf s p)"
    using p by (simp add: initPatterns_def fold_initPattern_maps image_comp comp_def)
  have n: "interiorEles (initPatterns s) p = interiorOf s p"
    using p by (simp add: initPatterns_def fold_initPattern_maps)
  have 1: "set (incomingOf s p) \<inter> set (outgoingOf s p) = {}"
    by (auto simp: incomingOf_def outgoingOf_def difference_def)
  have 2: "e \<notin> set (incomingOf s p) \<and> e \<notin> set (outgoingOf s p) \<and> e \<in> set (interiorOf s p)"
    if "e \<in> set (incomers s (children s p)) \<and> e \<in> set (outgoers s (children s p))" for e
  proof -
    from that have "e \<in> set (connectedEdges s (children s p))"
      by (auto simp: incomers_def outgoers_def connectedEdges_def)
    with that show ?thesis
      by (auto simp: incomingOf_def outgoingOf_def interiorOf_def difference_def union_eles_def)
  qed
  show ?thesis
    unfolding i o n using 1 2 by blast
qed

subsection \<open>Folds\<close>

lemma fold_field:
  "(\<And>x s. F (g x s) = F s) \<Longrightarrow> F (fold g xs s) = F s"
  by (induction xs arbitrary: s) auto

lemma fold_fixed:
  "(\<And>x. x \<in> set xs \<Longrightarrow> g x s = s) \<Longrightarrow> fold g xs s = s"
  by (induction xs) auto

lemma fold_keeps:
  "P s \<Longrightarrow> (\<And>y s. y \<in> set xs \<Longrightarrow> P s \<Longrightarrow> P (g y s)) \<Longrightarrow> P (fold g xs s)"
  by (induction xs arbitrary: s) auto

lemma fold_establishes:
  assumes "x \<in> set xs" and "Pre s"
    and pre: "\<And>y s. y \<in> set xs \<Longrightarrow> y \<noteq> x \<Longrightarrow> Pre s \<Longrightarrow> Pre (g y s)"
    and est: "\<And>s. Pre s \<Longrightarrow> Post (g x s)"
    and post: "\<And>y s. y \<in> set xs \<Longrightarrow> Post s \<Longrightarrow> Post (g y s)"
  shows "Post (fold g xs s)"
  using assms(1,2) pre post
proof (induction xs arbitrary: s)
  case Nil then show ?case by simp
next
  case (Cons y ys)
  show ?case
  proof (cases "y = x")
    case True
    have "Post (g x s)" using est Cons.prems(2) by blast
    then have "Post (fold g ys (g x s))"
      by (rule fold_keeps) (use Cons.prems(4) in auto)
    with True show ?thesis by simp
  next
    case False
    with Cons.prems have "x \<in> set ys" "Pre (g y s)" by auto
    then have "Post (fold g ys (g y s))"
      using Cons.IH[of "g y s"] Cons.prems(3,4) by auto
    then show ?thesis by simp
  qed
qed

lemma forEach_keeps:
  "P s \<Longrightarrow> (\<And>y s. y \<in> set xs \<Longrightarrow> P s \<Longrightarrow> P (stateLeft (f y s))) \<Longrightarrow> P (stateLeft (forEach f xs s))"
proof (induction xs arbitrary: s)
  case Nil
  then show ?case by (simp add: stateLeft_def)
next
  case (Cons x xs)
  have x: "P (stateLeft (f x s))" using Cons.prems by simp
  show ?case
  proof (cases "f x s")
    case (Inl thrown)
    with x show ?thesis by (simp add: stateLeft_def)
  next
    case (Inr u)
    with x have "P u" by (simp add: stateLeft_def)
    then have "P (stateLeft (forEach f xs u))"
      by (rule Cons.IH) (use Cons.prems(2) in auto)
    with Inr show ?thesis by simp
  qed
qed

lemma forEach_field:
  "(\<And>x s. F (stateLeft (f x s)) = F s) \<Longrightarrow> F (stateLeft (forEach f xs s)) = F s"
  by (rule forEach_keeps[where P = "\<lambda>u. F u = F s"]) simp_all

lemma forEach_error:
  "(\<And>x s e u. f x s = Inl (e, u) \<Longrightarrow> e = TypeError) \<Longrightarrow> forEach f xs s = Inl (e, u) \<Longrightarrow> e = TypeError"
proof (induction xs arbitrary: s)
  case Nil
  then show ?case by simp
next
  case (Cons x xs)
  then show ?case by (cases "f x s") auto
qed

subsection \<open>What the operations of the library change\<close>

lemma inGraph_cong: "eles s = eles t \<Longrightarrow> removed s = removed t \<Longrightarrow> inGraph s = inGraph t"
  by (rule ext) (simp add: inGraph_def)

lemma addClass_fields [simp]:
  "batchCount (addClass s x c) = batchCount s"
  "eles (addClass s x c) = eles s" "isEdge (addClass s x c) = isEdge s"
  "removed (addClass s x c) = removed s" "source (addClass s x c) = source s"
  "target (addClass s x c) = target s" "parent (addClass s x c) = parent s"
  "cpd (addClass s x c) = cpd s" "selected (addClass s x c) = selected s"
  "isCollapsed (addClass s x c) = isCollapsed s"
  "incomingEdgeMap (addClass s x c) = incomingEdgeMap s"
  "outgoingEdgeMap (addClass s x c) = outgoingEdgeMap s"
  "collapsedLabel (addClass s x c) = collapsedLabel s"
  "interiorEles (addClass s x c) = interiorEles s"
  "interiorNodes (addClass s x c) = interiorNodes s"
  by (cases x; simp)+

lemma removeClass_fields [simp]:
  "batchCount (removeClass s x c) = batchCount s"
  "eles (removeClass s x c) = eles s" "isEdge (removeClass s x c) = isEdge s"
  "removed (removeClass s x c) = removed s" "source (removeClass s x c) = source s"
  "target (removeClass s x c) = target s" "parent (removeClass s x c) = parent s"
  "cpd (removeClass s x c) = cpd s" "selected (removeClass s x c) = selected s"
  "isCollapsed (removeClass s x c) = isCollapsed s"
  "incomingEdgeMap (removeClass s x c) = incomingEdgeMap s"
  "outgoingEdgeMap (removeClass s x c) = outgoingEdgeMap s"
  "collapsedLabel (removeClass s x c) = collapsedLabel s"
  "interiorEles (removeClass s x c) = interiorEles s"
  "interiorNodes (removeClass s x c) = interiorNodes s"
  by (cases x; simp)+

lemma classes_addClass:
  "classes (addClass s x c) y = (if x = Some y then insert c (classes s y) else classes s y)"
  by (cases x) auto

lemma classes_removeClass:
  "classes (removeClass s x c) y = (if x = Some y then classes s y - {c} else classes s y)"
  by (cases x) auto

lemma dataCpd_cong: "cpd s = cpd t \<Longrightarrow> dataCpd s x = dataCpd t x"
  by (cases x) auto

lemma moveTarget_fields [simp]:
  "batchCount (moveTarget s x t) = batchCount s"
  "eles (moveTarget s x t) = eles s" "isEdge (moveTarget s x t) = isEdge s"
  "removed (moveTarget s x t) = removed s" "source (moveTarget s x t) = source s"
  "classes (moveTarget s x t) = classes s" "parent (moveTarget s x t) = parent s"
  "cpd (moveTarget s x t) = cpd s" "selected (moveTarget s x t) = selected s"
  "isCollapsed (moveTarget s x t) = isCollapsed s"
  "incomingEdgeMap (moveTarget s x t) = incomingEdgeMap s"
  "outgoingEdgeMap (moveTarget s x t) = outgoingEdgeMap s"
  "collapsedLabel (moveTarget s x t) = collapsedLabel s"
  "interiorEles (moveTarget s x t) = interiorEles s"
  "interiorNodes (moveTarget s x t) = interiorNodes s"
  by (cases x; simp)+

lemma moveSource_fields [simp]:
  "batchCount (moveSource s x t) = batchCount s"
  "eles (moveSource s x t) = eles s" "isEdge (moveSource s x t) = isEdge s"
  "removed (moveSource s x t) = removed s" "target (moveSource s x t) = target s"
  "classes (moveSource s x t) = classes s" "parent (moveSource s x t) = parent s"
  "cpd (moveSource s x t) = cpd s" "selected (moveSource s x t) = selected s"
  "isCollapsed (moveSource s x t) = isCollapsed s"
  "incomingEdgeMap (moveSource s x t) = incomingEdgeMap s"
  "outgoingEdgeMap (moveSource s x t) = outgoingEdgeMap s"
  "collapsedLabel (moveSource s x t) = collapsedLabel s"
  "interiorEles (moveSource s x t) = interiorEles s"
  "interiorNodes (moveSource s x t) = interiorNodes s"
  by (cases x; simp)+

lemma target_moveTarget:
  "target (moveTarget s x t) y =
     (if x = Some y \<and> inGraph s t \<and> isEdge s y then t else target s y)"
  by (cases x) auto

lemma source_moveSource:
  "source (moveSource s x t) y =
     (if x = Some y \<and> inGraph s t \<and> isEdge s y then t else source s y)"
  by (cases x) auto

lemma makeEdgeBasic_fields [simp]:
  "batchCount (makeEdgeBasic s x) = batchCount s"
  "eles (makeEdgeBasic s x) = eles s" "isEdge (makeEdgeBasic s x) = isEdge s"
  "removed (makeEdgeBasic s x) = removed s" "source (makeEdgeBasic s x) = source s"
  "target (makeEdgeBasic s x) = target s" "parent (makeEdgeBasic s x) = parent s"
  "cpd (makeEdgeBasic s x) = cpd s" "selected (makeEdgeBasic s x) = selected s"
  "isCollapsed (makeEdgeBasic s x) = isCollapsed s"
  "incomingEdgeMap (makeEdgeBasic s x) = incomingEdgeMap s"
  "outgoingEdgeMap (makeEdgeBasic s x) = outgoingEdgeMap s"
  "collapsedLabel (makeEdgeBasic s x) = collapsedLabel s"
  "interiorEles (makeEdgeBasic s x) = interiorEles s"
  "interiorNodes (makeEdgeBasic s x) = interiorNodes s"
  by (simp_all add: makeEdgeBasic_def Let_def)

lemma makeEdgeNonBasic_fields [simp]:
  "batchCount (makeEdgeNonBasic s x) = batchCount s"
  "eles (makeEdgeNonBasic s x) = eles s" "isEdge (makeEdgeNonBasic s x) = isEdge s"
  "removed (makeEdgeNonBasic s x) = removed s" "source (makeEdgeNonBasic s x) = source s"
  "target (makeEdgeNonBasic s x) = target s" "parent (makeEdgeNonBasic s x) = parent s"
  "cpd (makeEdgeNonBasic s x) = cpd s" "selected (makeEdgeNonBasic s x) = selected s"
  "isCollapsed (makeEdgeNonBasic s x) = isCollapsed s"
  "incomingEdgeMap (makeEdgeNonBasic s x) = incomingEdgeMap s"
  "outgoingEdgeMap (makeEdgeNonBasic s x) = outgoingEdgeMap s"
  "collapsedLabel (makeEdgeNonBasic s x) = collapsedLabel s"
  "interiorEles (makeEdgeNonBasic s x) = interiorEles s"
  "interiorNodes (makeEdgeNonBasic s x) = interiorNodes s"
  by (simp_all add: makeEdgeNonBasic_def Let_def)

lemma classes_makeEdgeBasic:
  "classes (makeEdgeBasic s x) y =
     (if x = Some y then basicClasses (dataCpd s x) (classes s y) else classes s y)"
  by (cases x) (auto simp: makeEdgeBasic_def basicClasses_def Let_def)

lemma classes_makeEdgeNonBasic:
  "classes (makeEdgeNonBasic s x) y =
     (if x = Some y then nonBasicClasses (dataCpd s x) (classes s y) else classes s y)"
  by (cases x) (auto simp: makeEdgeNonBasic_def nonBasicClasses_def Let_def)

lemma basicClasses_idem [simp]: "basicClasses d (basicClasses d cs) = basicClasses d cs"
  by (auto simp: basicClasses_def)

lemma nonBasicClasses_idem [simp]: "nonBasicClasses d (nonBasicClasses d cs) = nonBasicClasses d cs"
  by (auto simp: nonBasicClasses_def)

lemma pattern_basicClasses [simp]: "''pattern'' \<in> basicClasses d cs \<longleftrightarrow> ''pattern'' \<in> cs"
  by (auto simp: basicClasses_def)

lemma pattern_nonBasicClasses [simp]: "''pattern'' \<in> nonBasicClasses d cs \<longleftrightarrow> ''pattern'' \<in> cs"
  by (auto simp: nonBasicClasses_def)

lemma inGraph_simps [simp]:
  "inGraph (addClass s x c) = inGraph s"
  "inGraph (removeClass s x c) = inGraph s"
  "inGraph (moveTarget s x t) = inGraph s"
  "inGraph (moveSource s x t) = inGraph s"
  "inGraph (makeEdgeBasic s x) = inGraph s"
  "inGraph (makeEdgeNonBasic s x) = inGraph s"
  by (rule inGraph_cong; simp)+

lemma dataCpd_simps [simp]:
  "dataCpd (makeEdgeBasic s x) y = dataCpd s y"
  "dataCpd (makeEdgeNonBasic s x) y = dataCpd s y"
  "dataCpd (moveTarget s x t) y = dataCpd s y"
  "dataCpd (moveSource s x t) y = dataCpd s y"
  by (rule dataCpd_cong; simp)+

lemma startBatch_fields [simp]:
  "eles (startBatch s) = eles s" "isEdge (startBatch s) = isEdge s"
  "removed (startBatch s) = removed s" "source (startBatch s) = source s"
  "target (startBatch s) = target s" "parent (startBatch s) = parent s"
  "classes (startBatch s) = classes s" "cpd (startBatch s) = cpd s"
  "selected (startBatch s) = selected s" "isCollapsed (startBatch s) = isCollapsed s"
  "incomingEdgeMap (startBatch s) = incomingEdgeMap s"
  "outgoingEdgeMap (startBatch s) = outgoingEdgeMap s"
  "collapsedLabel (startBatch s) = collapsedLabel s"
  "interiorEles (startBatch s) = interiorEles s"
  "interiorNodes (startBatch s) = interiorNodes s"
  "batchCount (startBatch s) = Suc (batchCount s)"
  by (simp_all add: startBatch_def)

lemma endBatch_fields [simp]:
  "eles (endBatch s) = eles s" "isEdge (endBatch s) = isEdge s"
  "removed (endBatch s) = removed s" "source (endBatch s) = source s"
  "target (endBatch s) = target s" "parent (endBatch s) = parent s"
  "classes (endBatch s) = classes s" "cpd (endBatch s) = cpd s"
  "selected (endBatch s) = selected s" "isCollapsed (endBatch s) = isCollapsed s"
  "incomingEdgeMap (endBatch s) = incomingEdgeMap s"
  "outgoingEdgeMap (endBatch s) = outgoingEdgeMap s"
  "collapsedLabel (endBatch s) = collapsedLabel s"
  "interiorEles (endBatch s) = interiorEles s"
  "interiorNodes (endBatch s) = interiorNodes s"
  "batchCount (endBatch s) = batchCount s - 1"
  by (simp_all add: endBatch_def)

lemma batch_inGraph [simp]:
  "inGraph (startBatch s) = inGraph s" "inGraph (endBatch s) = inGraph s"
  by (rule inGraph_cong; simp)+

lemma batch_dataCpd [simp]:
  "dataCpd (startBatch s) x = dataCpd s x" "dataCpd (endBatch s) x = dataCpd s x"
  by (rule dataCpd_cong; simp)+

subsection \<open>The steps of collapsing\<close>

lemma collapseIncoming_fields [simp]:
  "batchCount (collapseIncoming p x s) = batchCount s"
  "eles (collapseIncoming p x s) = eles s" "isEdge (collapseIncoming p x s) = isEdge s"
  "removed (collapseIncoming p x s) = removed s" "source (collapseIncoming p x s) = source s"
  "parent (collapseIncoming p x s) = parent s"
  "cpd (collapseIncoming p x s) = cpd s" "selected (collapseIncoming p x s) = selected s"
  "isCollapsed (collapseIncoming p x s) = isCollapsed s"
  "incomingEdgeMap (collapseIncoming p x s) = incomingEdgeMap s"
  "outgoingEdgeMap (collapseIncoming p x s) = outgoingEdgeMap s"
  "collapsedLabel (collapseIncoming p x s) = collapsedLabel s"
  "interiorEles (collapseIncoming p x s) = interiorEles s"
  "interiorNodes (collapseIncoming p x s) = interiorNodes s"
  by (simp_all add: collapseIncoming_def Let_def)

lemma collapseOutgoing_fields [simp]:
  "batchCount (collapseOutgoing p x s) = batchCount s"
  "eles (collapseOutgoing p x s) = eles s" "isEdge (collapseOutgoing p x s) = isEdge s"
  "removed (collapseOutgoing p x s) = removed s" "target (collapseOutgoing p x s) = target s"
  "parent (collapseOutgoing p x s) = parent s"
  "cpd (collapseOutgoing p x s) = cpd s" "selected (collapseOutgoing p x s) = selected s"
  "isCollapsed (collapseOutgoing p x s) = isCollapsed s"
  "incomingEdgeMap (collapseOutgoing p x s) = incomingEdgeMap s"
  "outgoingEdgeMap (collapseOutgoing p x s) = outgoingEdgeMap s"
  "collapsedLabel (collapseOutgoing p x s) = collapsedLabel s"
  "interiorEles (collapseOutgoing p x s) = interiorEles s"
  "interiorNodes (collapseOutgoing p x s) = interiorNodes s"
  by (simp_all add: collapseOutgoing_def Let_def)

lemma collapse_steps_inGraph [simp]:
  "inGraph (collapseIncoming p x s) = inGraph s"
  "inGraph (collapseOutgoing p x s) = inGraph s"
  by (rule inGraph_cong; simp)+

lemma classes_collapseIncoming:
  "classes (collapseIncoming p x s) y =
     (if y = fst x \<and> inGraph s y then basicClasses (dataCpd s (Some y)) (classes s y) else classes s y)"
  by (auto simp: collapseIncoming_def Let_def getElementById_def classes_makeEdgeBasic)

lemma classes_collapseOutgoing:
  "classes (collapseOutgoing p x s) y =
     (if y = fst x \<and> inGraph s y then basicClasses (dataCpd s (Some y)) (classes s y) else classes s y)"
  by (auto simp: collapseOutgoing_def Let_def getElementById_def classes_makeEdgeBasic)

lemma target_collapseIncoming:
  "target (collapseIncoming p x s) y =
     (if y = fst x \<and> inGraph s y \<and> inGraph s p \<and> isEdge s y then p else target s y)"
  by (auto simp: collapseIncoming_def Let_def getElementById_def target_moveTarget)

lemma source_collapseOutgoing:
  "source (collapseOutgoing p x s) y =
     (if y = fst x \<and> inGraph s y \<and> inGraph s p \<and> isEdge s y then p else source s y)"
  by (auto simp: collapseOutgoing_def Let_def getElementById_def source_moveSource)

subsection \<open>The steps of uncollapsing\<close>

lemma uncollapseIncoming_throws:
  "uncollapseIncoming x s = (if inGraph s (fst x) then Inr (incomingStep x s) else Inl (TypeError, s))"
  by (simp add: incomingStep_def stateLeft_def uncollapseIncoming_def getElementById_def Let_def)

lemma uncollapseOutgoing_throws:
  "uncollapseOutgoing x s = (if inGraph s (fst x) then Inr (outgoingStep x s) else Inl (TypeError, s))"
  by (simp add: outgoingStep_def stateLeft_def uncollapseOutgoing_def getElementById_def Let_def)

lemma step_not_inGraph:
  "\<not> inGraph s (fst x) \<Longrightarrow> incomingStep x s = s"
  "\<not> inGraph s (fst x) \<Longrightarrow> outgoingStep x s = s"
  by (simp_all add: incomingStep_def outgoingStep_def stateLeft_def uncollapseIncoming_def
        uncollapseOutgoing_def getElementById_def Let_def)

lemma incomingStep_fields [simp]:
  "batchCount (incomingStep x s) = batchCount s"
  "eles (incomingStep x s) = eles s" "isEdge (incomingStep x s) = isEdge s"
  "removed (incomingStep x s) = removed s" "source (incomingStep x s) = source s"
  "parent (incomingStep x s) = parent s"
  "cpd (incomingStep x s) = cpd s" "selected (incomingStep x s) = selected s"
  "isCollapsed (incomingStep x s) = isCollapsed s"
  "incomingEdgeMap (incomingStep x s) = incomingEdgeMap s"
  "outgoingEdgeMap (incomingStep x s) = outgoingEdgeMap s"
  "collapsedLabel (incomingStep x s) = collapsedLabel s"
  "interiorEles (incomingStep x s) = interiorEles s"
  "interiorNodes (incomingStep x s) = interiorNodes s"
  by (simp_all add: incomingStep_def stateLeft_def uncollapseIncoming_def getElementById_def Let_def)

lemma outgoingStep_fields [simp]:
  "batchCount (outgoingStep x s) = batchCount s"
  "eles (outgoingStep x s) = eles s" "isEdge (outgoingStep x s) = isEdge s"
  "removed (outgoingStep x s) = removed s" "target (outgoingStep x s) = target s"
  "parent (outgoingStep x s) = parent s"
  "cpd (outgoingStep x s) = cpd s" "selected (outgoingStep x s) = selected s"
  "isCollapsed (outgoingStep x s) = isCollapsed s"
  "incomingEdgeMap (outgoingStep x s) = incomingEdgeMap s"
  "outgoingEdgeMap (outgoingStep x s) = outgoingEdgeMap s"
  "collapsedLabel (outgoingStep x s) = collapsedLabel s"
  "interiorEles (outgoingStep x s) = interiorEles s"
  "interiorNodes (outgoingStep x s) = interiorNodes s"
  by (simp_all add: outgoingStep_def stateLeft_def uncollapseOutgoing_def getElementById_def Let_def)

lemma uncollapse_steps_inGraph [simp]:
  "inGraph (incomingStep x s) = inGraph s"
  "inGraph (outgoingStep x s) = inGraph s"
  by (rule inGraph_cong; simp)+

lemma classes_incomingStep:
  "classes (incomingStep x s) y =
     (if y = fst x \<and> inGraph s y \<and> \<not> (isEdge s y \<and> ''pattern'' \<in> classes s (source s y))
      then nonBasicClasses (dataCpd s (Some y)) (classes s y) else classes s y)"
  by (auto simp: incomingStep_def stateLeft_def uncollapseIncoming_def getElementById_def Let_def getElementById_def classes_makeEdgeNonBasic)

lemma classes_outgoingStep:
  "classes (outgoingStep x s) y =
     (if y = fst x \<and> inGraph s y \<and> \<not> (isEdge s y \<and> ''pattern'' \<in> classes s (target s y))
      then nonBasicClasses (dataCpd s (Some y)) (classes s y) else classes s y)"
  by (auto simp: outgoingStep_def stateLeft_def uncollapseOutgoing_def getElementById_def Let_def getElementById_def classes_makeEdgeNonBasic)

lemma target_incomingStep:
  "target (incomingStep x s) y =
     (if y = fst x \<and> inGraph s y \<and> inGraph s (snd (snd x)) \<and> isEdge s y then snd (snd x) else target s y)"
  by (auto simp: incomingStep_def stateLeft_def uncollapseIncoming_def getElementById_def Let_def getElementById_def target_moveTarget)

lemma source_outgoingStep:
  "source (outgoingStep x s) y =
     (if y = fst x \<and> inGraph s y \<and> inGraph s (fst (snd x)) \<and> isEdge s y then fst (snd x) else source s y)"
  by (auto simp: outgoingStep_def stateLeft_def uncollapseOutgoing_def getElementById_def Let_def getElementById_def source_moveSource)

lemma pattern_class_steps [simp]:
  "''pattern'' \<in> classes (collapseIncoming p x s) y \<longleftrightarrow> ''pattern'' \<in> classes s y"
  "''pattern'' \<in> classes (collapseOutgoing p x s) y \<longleftrightarrow> ''pattern'' \<in> classes s y"
  "''pattern'' \<in> classes (incomingStep x s) y \<longleftrightarrow> ''pattern'' \<in> classes s y"
  "''pattern'' \<in> classes (outgoingStep x s) y \<longleftrightarrow> ''pattern'' \<in> classes s y"
  by (simp_all add: classes_collapseIncoming classes_collapseOutgoing
        classes_incomingStep classes_outgoingStep)

subsection \<open>Unselecting, removing, restoring\<close>

lemma unselect_fields [simp]:
  "batchCount (unselect s xs) = batchCount s"
  "eles (unselect s xs) = eles s" "isEdge (unselect s xs) = isEdge s"
  "removed (unselect s xs) = removed s" "source (unselect s xs) = source s"
  "target (unselect s xs) = target s" "parent (unselect s xs) = parent s"
  "classes (unselect s xs) = classes s" "cpd (unselect s xs) = cpd s"
  "isCollapsed (unselect s xs) = isCollapsed s"
  "incomingEdgeMap (unselect s xs) = incomingEdgeMap s"
  "outgoingEdgeMap (unselect s xs) = outgoingEdgeMap s"
  "collapsedLabel (unselect s xs) = collapsedLabel s"
  "interiorEles (unselect s xs) = interiorEles s"
  "interiorNodes (unselect s xs) = interiorNodes s"
  by (simp_all add: unselect_def)

lemma remove_eles_fields [simp]:
  "batchCount (remove_eles s xs) = batchCount s"
  "eles (remove_eles s xs) = eles s" "isEdge (remove_eles s xs) = isEdge s"
  "source (remove_eles s xs) = source s" "selected (remove_eles s xs) = selected s"
  "target (remove_eles s xs) = target s" "parent (remove_eles s xs) = parent s"
  "classes (remove_eles s xs) = classes s" "cpd (remove_eles s xs) = cpd s"
  "isCollapsed (remove_eles s xs) = isCollapsed s"
  "incomingEdgeMap (remove_eles s xs) = incomingEdgeMap s"
  "outgoingEdgeMap (remove_eles s xs) = outgoingEdgeMap s"
  "collapsedLabel (remove_eles s xs) = collapsedLabel s"
  "interiorEles (remove_eles s xs) = interiorEles s"
  "interiorNodes (remove_eles s xs) = interiorNodes s"
  by (simp_all add: remove_eles_def)

lemma restore_eles_fields [simp]:
  "batchCount (restore_eles s xs) = batchCount s"
  "eles (restore_eles s xs) = eles s" "isEdge (restore_eles s xs) = isEdge s"
  "source (restore_eles s xs) = source s" "selected (restore_eles s xs) = selected s"
  "target (restore_eles s xs) = target s"
  "classes (restore_eles s xs) = classes s" "cpd (restore_eles s xs) = cpd s"
  "isCollapsed (restore_eles s xs) = isCollapsed s"
  "incomingEdgeMap (restore_eles s xs) = incomingEdgeMap s"
  "outgoingEdgeMap (restore_eles s xs) = outgoingEdgeMap s"
  "collapsedLabel (restore_eles s xs) = collapsedLabel s"
  "interiorEles (restore_eles s xs) = interiorEles s"
  "interiorNodes (restore_eles s xs) = interiorNodes s"
  by (simp_all add: restore_eles_def restore_parents_def restore_edges_def restore_nodes_def)

subsection \<open>The loops\<close>

lemma fold_collapseIncoming_fields [simp]:
  "batchCount (fold (collapseIncoming p) m s) = batchCount s"
  "eles (fold (collapseIncoming p) m s) = eles s"
  "isEdge (fold (collapseIncoming p) m s) = isEdge s"
  "removed (fold (collapseIncoming p) m s) = removed s"
  "source (fold (collapseIncoming p) m s) = source s"
  "parent (fold (collapseIncoming p) m s) = parent s"
  "cpd (fold (collapseIncoming p) m s) = cpd s"
  "selected (fold (collapseIncoming p) m s) = selected s"
  "isCollapsed (fold (collapseIncoming p) m s) = isCollapsed s"
  "incomingEdgeMap (fold (collapseIncoming p) m s) = incomingEdgeMap s"
  "outgoingEdgeMap (fold (collapseIncoming p) m s) = outgoingEdgeMap s"
  "collapsedLabel (fold (collapseIncoming p) m s) = collapsedLabel s"
  "interiorEles (fold (collapseIncoming p) m s) = interiorEles s"
  "interiorNodes (fold (collapseIncoming p) m s) = interiorNodes s"
  "inGraph (fold (collapseIncoming p) m s) = inGraph s"
  by (rule fold_field, simp)+

lemma fold_collapseOutgoing_fields [simp]:
  "batchCount (fold (collapseOutgoing p) m s) = batchCount s"
  "eles (fold (collapseOutgoing p) m s) = eles s"
  "isEdge (fold (collapseOutgoing p) m s) = isEdge s"
  "removed (fold (collapseOutgoing p) m s) = removed s"
  "target (fold (collapseOutgoing p) m s) = target s"
  "parent (fold (collapseOutgoing p) m s) = parent s"
  "cpd (fold (collapseOutgoing p) m s) = cpd s"
  "selected (fold (collapseOutgoing p) m s) = selected s"
  "isCollapsed (fold (collapseOutgoing p) m s) = isCollapsed s"
  "incomingEdgeMap (fold (collapseOutgoing p) m s) = incomingEdgeMap s"
  "outgoingEdgeMap (fold (collapseOutgoing p) m s) = outgoingEdgeMap s"
  "collapsedLabel (fold (collapseOutgoing p) m s) = collapsedLabel s"
  "interiorEles (fold (collapseOutgoing p) m s) = interiorEles s"
  "interiorNodes (fold (collapseOutgoing p) m s) = interiorNodes s"
  "inGraph (fold (collapseOutgoing p) m s) = inGraph s"
  by (rule fold_field, simp)+

lemma fold_incomingStep_fields [simp]:
  "batchCount (fold incomingStep m s) = batchCount s"
  "eles (fold incomingStep m s) = eles s"
  "isEdge (fold incomingStep m s) = isEdge s"
  "removed (fold incomingStep m s) = removed s"
  "source (fold incomingStep m s) = source s"
  "parent (fold incomingStep m s) = parent s"
  "cpd (fold incomingStep m s) = cpd s"
  "selected (fold incomingStep m s) = selected s"
  "isCollapsed (fold incomingStep m s) = isCollapsed s"
  "incomingEdgeMap (fold incomingStep m s) = incomingEdgeMap s"
  "outgoingEdgeMap (fold incomingStep m s) = outgoingEdgeMap s"
  "collapsedLabel (fold incomingStep m s) = collapsedLabel s"
  "interiorEles (fold incomingStep m s) = interiorEles s"
  "interiorNodes (fold incomingStep m s) = interiorNodes s"
  "inGraph (fold incomingStep m s) = inGraph s"
  by (rule fold_field, simp)+

lemma fold_outgoingStep_fields [simp]:
  "batchCount (fold outgoingStep m s) = batchCount s"
  "eles (fold outgoingStep m s) = eles s"
  "isEdge (fold outgoingStep m s) = isEdge s"
  "removed (fold outgoingStep m s) = removed s"
  "target (fold outgoingStep m s) = target s"
  "parent (fold outgoingStep m s) = parent s"
  "cpd (fold outgoingStep m s) = cpd s"
  "selected (fold outgoingStep m s) = selected s"
  "isCollapsed (fold outgoingStep m s) = isCollapsed s"
  "incomingEdgeMap (fold outgoingStep m s) = incomingEdgeMap s"
  "outgoingEdgeMap (fold outgoingStep m s) = outgoingEdgeMap s"
  "collapsedLabel (fold outgoingStep m s) = collapsedLabel s"
  "interiorEles (fold outgoingStep m s) = interiorEles s"
  "interiorNodes (fold outgoingStep m s) = interiorNodes s"
  "inGraph (fold outgoingStep m s) = inGraph s"
  by (rule fold_field, simp)+

text \<open>
  Claim C4. \<open>collapsePattern\<close> and \<open>uncollapsePattern\<close> change the \<open>isCollapsed\<close> flag of
  the toggled pattern only. After \<open>collapsePattern\<close> the flags are the flags before the
  call, set at that pattern. When \<open>uncollapsePattern\<close> returns, the flags are the flags
  before the call, cleared at that pattern; when it throws, which it does with a
  \<open>TypeError\<close> only, the flags in the state it leaves are the flags before the call. The
  flag of every other pattern, ancestors and descendants included, is as it was.
\<close>

theorem collapse_uncollapse_local:
  "isCollapsed (collapsePattern s p) = (isCollapsed s)(p := True)
   \<and> (case uncollapsePattern s p of
         Inr s' \<Rightarrow> isCollapsed s' = (isCollapsed s)(p := False)
       | Inl thrown \<Rightarrow> fst thrown = TypeError \<and> isCollapsed (snd thrown) = isCollapsed s)"
proof
  show "isCollapsed (collapsePattern s p) = (isCollapsed s)(p := True)"
    by (simp add: collapsePattern_def Let_def)
  define s1 where "s1 = restore_eles (startBatch s) (interiorEles (startBatch s) p)"
  have s1: "isCollapsed s1 = isCollapsed s" by (simp add: s1_def)
  have 1: "isCollapsed (stateLeft (forEach uncollapseIncoming m u)) = isCollapsed u" for m u
    by (rule forEach_field) (simp add: incomingStep_def[symmetric])
  have 2: "isCollapsed (stateLeft (forEach uncollapseOutgoing m u)) = isCollapsed u" for m u
    by (rule forEach_field) (simp add: outgoingStep_def[symmetric])
  have e1: "forEach uncollapseIncoming m u = Inl (e, v) \<Longrightarrow> e = TypeError" for m u e v
    by (erule forEach_error[rotated]) (simp add: uncollapseIncoming_throws split: if_splits)
  have e2: "forEach uncollapseOutgoing m u = Inl (e, v) \<Longrightarrow> e = TypeError" for m u e v
    by (erule forEach_error[rotated]) (simp add: uncollapseOutgoing_throws split: if_splits)
  show "case uncollapsePattern s p of
         Inr s' \<Rightarrow> isCollapsed s' = (isCollapsed s)(p := False)
       | Inl thrown \<Rightarrow> fst thrown = TypeError \<and> isCollapsed (snd thrown) = isCollapsed s"
  proof (cases "forEach uncollapseIncoming (incomingEdgeMap s1 p) s1")
    case (Inl thrown)
    obtain e v where t: "thrown = (e, v)" by (cases thrown)
    from Inl t have "e = TypeError" by (simp add: e1)
    moreover from 1[of "incomingEdgeMap s1 p" s1] Inl t s1 have "isCollapsed v = isCollapsed s"
      by (simp add: stateLeft_def)
    moreover from Inl have "uncollapsePattern s p = Inl thrown"
      by (simp add: uncollapsePattern_def Let_def s1_def)
    ultimately show ?thesis using t by simp
  next
    case (Inr s2)
    from 1[of "incomingEdgeMap s1 p" s1] Inr s1 have s2: "isCollapsed s2 = isCollapsed s"
      by (simp add: stateLeft_def)
    show ?thesis
    proof (cases "forEach uncollapseOutgoing (outgoingEdgeMap s2 p) s2")
      case (Inl thrown)
      obtain e v where t: "thrown = (e, v)" by (cases thrown)
      from Inl t have "e = TypeError" by (simp add: e2)
      moreover from 2[of "outgoingEdgeMap s2 p" s2] Inl t s2 have "isCollapsed v = isCollapsed s"
        by (simp add: stateLeft_def)
      moreover from Inl \<open>forEach uncollapseIncoming (incomingEdgeMap s1 p) s1 = Inr s2\<close>
      have "uncollapsePattern s p = Inl thrown"
        by (simp add: uncollapsePattern_def Let_def s1_def)
      ultimately show ?thesis using t by simp
    next
      case (Inr s3)
      from 2[of "outgoingEdgeMap s2 p" s2] Inr s2 have s3: "isCollapsed s3 = isCollapsed s"
        by (simp add: stateLeft_def)
      from Inr \<open>forEach uncollapseIncoming (incomingEdgeMap s1 p) s1 = Inr s2\<close>
      have "uncollapsePattern s p = Inr (endBatch (s3\<lparr>isCollapsed := (isCollapsed s3)(p := False)\<rparr>))"
        by (simp add: uncollapsePattern_def Let_def s1_def)
      then show ?thesis using s3 by simp
    qed
  qed
qed

lemma ex_patterns: "patterns example_drawn = [''P'', ''Q'', ''R'']"
  by code_simp

lemma ex_children_P: "children example_drawn ''P'' = [''Q'', ''c'']"
  by code_simp

lemma ex_e5: "incomers example_drawn [''Q'', ''c''] = [''e3'', ''e5'']"
   "outgoers example_drawn [''Q'', ''c''] = [''e2'', ''e4'', ''e5'']"
  by code_simp+

text \<open>
  C1 on the example: the loop \<open>e5\<close> on the child \<open>c\<close> of pattern \<open>P\<close> comes into and
  goes out of the children of \<open>P\<close>, and ends up an interior element.
\<close>

theorem initPatterns_maps_disjoint_witness:
  "fst ` set (incomingEdgeMap example_graph ''P'') \<inter> fst ` set (outgoingEdgeMap example_graph ''P'') = {}
   \<and> ''e5'' \<notin> fst ` set (incomingEdgeMap example_graph ''P'')
   \<and> ''e5'' \<notin> fst ` set (outgoingEdgeMap example_graph ''P'')
   \<and> ''e5'' \<in> set (interiorEles example_graph ''P'')"
proof -
  have p: "''P'' \<in> set (patterns example_drawn)" by (simp add: ex_patterns)
  have e: "''e5'' \<in> set (incomers example_drawn (children example_drawn ''P''))
        \<and> ''e5'' \<in> set (outgoers example_drawn (children example_drawn ''P''))"
    by (simp add: ex_children_P ex_e5)
  from initPatterns_maps_disjoint[OF p] e show ?thesis
    unfolding example_graph_def by blast
qed

section \<open>Collapsing and uncollapsing: properties\<close>

subsection \<open>Collapsing twice\<close>

lemma dataCpd_steps [simp]:
  "dataCpd (collapseIncoming p x s) y = dataCpd s y"
  "dataCpd (collapseOutgoing p x s) y = dataCpd s y"
  "dataCpd (incomingStep x s) y = dataCpd s y"
  "dataCpd (outgoingStep x s) y = dataCpd s y"
  "dataCpd (remove_eles s xs) y = dataCpd s y"
  "dataCpd (restore_eles s xs) y = dataCpd s y"
  "dataCpd (unselect s xs) y = dataCpd s y"
  by (rule dataCpd_cong; simp)+

lemma settledIncoming_after: "settledIncoming p (fst x) (collapseIncoming p x s)"
  by (simp add: settledIncoming_def classes_collapseIncoming target_collapseIncoming)

lemma settledOutgoing_after: "settledOutgoing p (fst x) (collapseOutgoing p x s)"
  by (simp add: settledOutgoing_def classes_collapseOutgoing source_collapseOutgoing)

lemma settledIncoming_kept:
  "settledIncoming p e s \<Longrightarrow> settledIncoming p e (collapseIncoming p y s)"
  "settledIncoming p e s \<Longrightarrow> settledIncoming p e (collapseOutgoing p y s)"
  by (auto simp: settledIncoming_def classes_collapseIncoming classes_collapseOutgoing
        target_collapseIncoming)

lemma settledOutgoing_kept:
  "settledOutgoing p e s \<Longrightarrow> settledOutgoing p e (collapseIncoming p y s)"
  "settledOutgoing p e s \<Longrightarrow> settledOutgoing p e (collapseOutgoing p y s)"
  by (auto simp: settledOutgoing_def classes_collapseIncoming classes_collapseOutgoing
        source_collapseOutgoing)

lemma settledIncoming_fixed:
  assumes "settledIncoming p (fst x) s"
  shows "collapseIncoming p x s = s"
proof -
  have c: "classes (collapseIncoming p x s) = classes s"
    by (rule ext) (use assms in \<open>auto simp: classes_collapseIncoming settledIncoming_def\<close>)
  have t: "target (collapseIncoming p x s) = target s"
    by (rule ext) (use assms in \<open>auto simp: target_collapseIncoming settledIncoming_def\<close>)
  show ?thesis
    by (rule cy.equality) (simp_all add: c t)
qed

lemma settledOutgoing_fixed:
  assumes "settledOutgoing p (fst x) s"
  shows "collapseOutgoing p x s = s"
proof -
  have c: "classes (collapseOutgoing p x s) = classes s"
    by (rule ext) (use assms in \<open>auto simp: classes_collapseOutgoing settledOutgoing_def\<close>)
  have t: "source (collapseOutgoing p x s) = source s"
    by (rule ext) (use assms in \<open>auto simp: source_collapseOutgoing settledOutgoing_def\<close>)
  show ?thesis
    by (rule cy.equality) (simp_all add: c t)
qed

lemma removedNode_inGraph: "removedNode k s xs x \<Longrightarrow> inGraph s x"
  by (cases k) auto

lemma removedNode_none:
  "\<forall>x\<in>set xs. \<not> inGraph s x \<Longrightarrow> \<not> removedNode k s xs y"
  by (induction k arbitrary: y) (auto split: option.splits)

lemma removedEle_none:
  "\<forall>x\<in>set xs. \<not> inGraph s x \<Longrightarrow> \<not> removedEle s xs y"
  by (auto simp: removedEle_def Let_def removedNode_none)

lemma remove_eles_fixed:
  "\<forall>x\<in>set xs. \<not> inGraph s x \<Longrightarrow> remove_eles s xs = s"
  by (simp add: remove_eles_def removedEle_none)

lemma inGraph_remove_eles: "inGraph (remove_eles s xs) x \<Longrightarrow> inGraph s x"
  by (simp add: inGraph_def remove_eles_def)

lemma remove_eles_removes: "x \<in> set xs \<Longrightarrow> \<not> inGraph (remove_eles s xs) x"
proof
  assume x: "x \<in> set xs" and g: "inGraph (remove_eles s xs) x"
  then have i: "inGraph s x" by (simp add: inGraph_remove_eles)
  have "removedNode k s xs x" if "\<not> isEdge s x" for k
    using that x i by (cases k) auto
  with x i have "removedEle s xs x"
    by (auto simp: removedEle_def Let_def)
  with g show False by (simp add: inGraph_def remove_eles_def)
qed

lemma settled_remove_eles:
  "settledIncoming p e s \<Longrightarrow> settledIncoming p e (remove_eles s xs)"
  "settledOutgoing p e s \<Longrightarrow> settledOutgoing p e (remove_eles s xs)"
  by (auto simp: settledIncoming_def settledOutgoing_def dest: inGraph_remove_eles)

lemma settled_unselect:
  "settledIncoming p e (unselect s xs) = settledIncoming p e s"
  "settledOutgoing p e (unselect s xs) = settledOutgoing p e s"
  by (simp_all add: settledIncoming_def settledOutgoing_def inGraph_def)

lemma settled_flag:
  "settledIncoming p e (s\<lparr>isCollapsed := f\<rparr>) = settledIncoming p e s"
  "settledOutgoing p e (s\<lparr>isCollapsed := f\<rparr>) = settledOutgoing p e s"
  by (simp_all add: settledIncoming_def settledOutgoing_def inGraph_def dataCpd_cong[of "s\<lparr>isCollapsed := f\<rparr>" s])

lemma settled_batch:
  "settledIncoming p e (startBatch s) = settledIncoming p e s"
  "settledOutgoing p e (startBatch s) = settledOutgoing p e s"
  "settledIncoming p e (endBatch s) = settledIncoming p e s"
  "settledOutgoing p e (endBatch s) = settledOutgoing p e s"
  by (simp_all add: settledIncoming_def settledOutgoing_def)

lemma endBatch_startBatch [simp]: "endBatch (startBatch s) = s"
  by (simp add: endBatch_def startBatch_def)

lemma fold_collapseIncoming_settles:
  "x \<in> set m \<Longrightarrow> settledIncoming p (fst x) (fold (collapseIncoming p) m s)"
  by (rule fold_establishes[where Pre = "\<lambda>s. True" and x = x])
     (simp_all add: settledIncoming_after settledIncoming_kept)

lemma fold_collapseOutgoing_settles:
  "x \<in> set m \<Longrightarrow> settledOutgoing p (fst x) (fold (collapseOutgoing p) m s)"
  by (rule fold_establishes[where Pre = "\<lambda>s. True" and x = x])
     (simp_all add: settledOutgoing_after settledOutgoing_kept)

lemma collapsePattern_settled:
  "x \<in> set (incomingEdgeMap s p) \<Longrightarrow> settledIncoming p (fst x) (collapsePattern s p)"
  "y \<in> set (outgoingEdgeMap s p) \<Longrightarrow> settledOutgoing p (fst y) (collapsePattern s p)"
proof -
  assume x: "x \<in> set (incomingEdgeMap s p)"
  have "settledIncoming p (fst x) (fold (collapseIncoming p) (incomingEdgeMap s p) (startBatch s))"
    using x by (rule fold_collapseIncoming_settles)
  then have "settledIncoming p (fst x)
     (fold (collapseOutgoing p) (outgoingEdgeMap s p)
        (fold (collapseIncoming p) (incomingEdgeMap s p) (startBatch s)))"
    by (rule fold_keeps) (simp add: settledIncoming_kept)
  then show "settledIncoming p (fst x) (collapsePattern s p)"
    by (simp add: collapsePattern_def Let_def settled_remove_eles settled_unselect settled_flag
          settled_batch)
next
  assume y: "y \<in> set (outgoingEdgeMap s p)"
  have "settledOutgoing p (fst y)
     (fold (collapseOutgoing p) (outgoingEdgeMap s p)
        (fold (collapseIncoming p) (incomingEdgeMap s p) (startBatch s)))"
    using y by (rule fold_collapseOutgoing_settles)
  then show "settledOutgoing p (fst y) (collapsePattern s p)"
    by (simp add: collapsePattern_def Let_def settled_remove_eles settled_unselect settled_flag
          settled_batch)
qed

lemma collapsePattern_kept_fields [simp]:
  "incomingEdgeMap (collapsePattern s p) = incomingEdgeMap s"
  "outgoingEdgeMap (collapsePattern s p) = outgoingEdgeMap s"
  "interiorEles (collapsePattern s p) = interiorEles s"
  "interiorNodes (collapsePattern s p) = interiorNodes s"
  "batchCount (collapsePattern s p) = batchCount s"
  "eles (collapsePattern s p) = eles s"
  "isEdge (collapsePattern s p) = isEdge s"
  "cpd (collapsePattern s p) = cpd s"
  "parent (collapsePattern s p) = parent s"
  by (simp_all add: collapsePattern_def Let_def)

lemma collapsePattern_twice: "collapsePattern (collapsePattern s p) p = collapsePattern s p"
proof -
  define t where "t = startBatch (collapsePattern s p)"
  have m: "incomingEdgeMap t = incomingEdgeMap s" "outgoingEdgeMap t = outgoingEdgeMap s"
    by (simp_all add: t_def)
  have 1: "fold (collapseIncoming p) (incomingEdgeMap t p) t = t"
    by (rule fold_fixed) (simp add: m, simp add: t_def settledIncoming_fixed collapsePattern_settled settled_batch)
  have 2: "fold (collapseOutgoing p) (outgoingEdgeMap t p) t = t"
    by (rule fold_fixed) (simp add: m, simp add: t_def settledOutgoing_fixed collapsePattern_settled settled_batch)
  have "isCollapsed t p" by (simp add: t_def collapsePattern_def Let_def)
  then have 3: "t\<lparr>isCollapsed := (isCollapsed t)(p := True)\<rparr> = t"
    by (simp add: fun_upd_idem)
  have "\<forall>x\<in>set (interiorEles t p). \<not> selected t x"
    by (simp add: t_def collapsePattern_def Let_def unselect_def)
  then have "(\<lambda>x. selected t x \<and> x \<notin> set (interiorEles t p)) = selected t" by auto
  then have 4: "unselect t (interiorEles t p) = t"
    by (simp add: unselect_def)
  have "\<forall>x\<in>set (interiorEles t p). \<not> inGraph t x"
    by (auto simp: t_def collapsePattern_def Let_def dest: remove_eles_removes[THEN notE])
  then have 5: "remove_eles t (interiorEles t p) = t"
    by (rule remove_eles_fixed)
  have "collapsePattern (collapsePattern s p) p = endBatch t"
    unfolding collapsePattern_def[of "collapsePattern s p" p] Let_def t_def[symmetric] 1 2 3 4 5 ..
  then show ?thesis by (simp add: t_def)
qed

subsection \<open>Restoring\<close>


lemma removed_restore_eles:
  "removed (restore_eles s xs) x =
     (removed s x \<and> \<not> (x \<in> set xs \<and> x \<in> set (eles s) \<and>
        (isEdge s x \<longrightarrow> inGraph (restore_nodes s xs) (source s x) \<and> inGraph (restore_nodes s xs) (target s x))))"
  by (auto simp: restore_eles_def restore_parents_def restore_edges_def restore_nodes_def)




lemma restore_eles_fixed:
  assumes n: "\<forall>x\<in>set xs. x \<in> set (eles u) \<and> \<not> isEdge u x \<longrightarrow> \<not> removed u x"
    and e: "\<forall>x\<in>set xs. x \<in> set (eles u) \<and> isEdge u x \<and> removed u x \<longrightarrow>
              \<not> (inGraph u (source u x) \<and> inGraph u (target u x))"
  shows "restore_eles u xs = u"
proof -
  have 1: "restore_nodes u xs = u"
  proof -
    have "(\<lambda>x. removed u x \<and> \<not> (x \<in> set xs \<and> x \<in> set (eles u) \<and> \<not> isEdge u x)) = removed u"
      using n by auto
    then show ?thesis by (simp add: restore_nodes_def)
  qed
  have 2: "restore_edges u xs = u"
  proof -
    have "(\<lambda>x. removed u x \<and> \<not> (x \<in> set xs \<and> x \<in> set (eles u) \<and> isEdge u x
             \<and> inGraph u (source u x) \<and> inGraph u (target u x))) = removed u"
      using e by auto
    then show ?thesis by (simp add: restore_edges_def)
  qed
  have 3: "restore_parents u xs u = u"
  proof -
    have "(\<lambda>x. if x \<in> set xs \<and> x \<in> set (eles u) \<and> \<not> isEdge u x \<and> removed u x
               then (case parent u x of None \<Rightarrow> None | Some q \<Rightarrow> if inGraph u q then Some q else None)
               else parent u x) = parent u"
    proof (rule ext)
      fix x
      from n have "\<not> (x \<in> set xs \<and> x \<in> set (eles u) \<and> \<not> isEdge u x \<and> removed u x)" by blast
      then show "(if x \<in> set xs \<and> x \<in> set (eles u) \<and> \<not> isEdge u x \<and> removed u x
               then (case parent u x of None \<Rightarrow> None | Some q \<Rightarrow> if inGraph u q then Some q else None)
               else parent u x) = parent u x"
        by (simp only: if_False)
    qed
    then show ?thesis by (simp add: restore_parents_def)
  qed
  show ?thesis by (simp add: restore_eles_def 1 2 3)
qed

lemma removed_edge_untouched:
  assumes "\<not> inGraph s x"
  shows "source (fold outgoingStep m s) x = source s x"
    and "target (fold incomingStep m s) x = target s x"
proof -
  have "\<not> inGraph (fold outgoingStep m s) x \<and> source (fold outgoingStep m s) x = source s x"
    by (rule fold_keeps[where P = "\<lambda>u. \<not> inGraph u x \<and> source u x = source s x"])
       (use assms in \<open>auto simp: source_outgoingStep\<close>)
  then show "source (fold outgoingStep m s) x = source s x" by simp
  have "\<not> inGraph (fold incomingStep m s) x \<and> target (fold incomingStep m s) x = target s x"
    by (rule fold_keeps[where P = "\<lambda>u. \<not> inGraph u x \<and> target u x = target s x"])
       (use assms in \<open>auto simp: target_incomingStep\<close>)
  then show "target (fold incomingStep m s) x = target s x" by simp
qed

lemma restore_steps_startBatch:
  "restore_nodes (startBatch s) xs = startBatch (restore_nodes s xs)"
  "restore_edges (startBatch s) xs = startBatch (restore_edges s xs)"
  "restore_parents (startBatch s0) xs (startBatch s) = startBatch (restore_parents s0 xs s)"
  by (rule cy.equality;
      simp add: restore_parents_def restore_edges_def restore_nodes_def startBatch_def inGraph_def
        fun_eq_iff split: option.splits)+

lemma restore_eles_startBatch [simp]:
  "restore_eles (startBatch s) xs = startBatch (restore_eles s xs)"
  by (simp add: restore_eles_def restore_steps_startBatch)

lemma initPatterns_keys_distinct:
  assumes "distinct (eles s)" and "p \<in> set (patterns s)"
  shows "distinct (map fst (incomingEdgeMap (initPatterns s) p @ outgoingEdgeMap (initPatterns s) p))"
proof -
  have i: "distinct (incomingOf s p)" and o: "distinct (outgoingOf s p)"
    using assms(1) by (simp_all add: incomingOf_def outgoingOf_def difference_def incomers_def outgoers_def)
  have j: "set (incomingOf s p) \<inter> set (outgoingOf s p) = {}"
    by (auto simp: incomingOf_def outgoingOf_def difference_def)
  show ?thesis
    using assms(2) i o j
    by (simp add: initPatterns_def fold_initPattern_maps comp_def)
qed

subsection \<open>When uncollapsing returns and when it throws\<close>

lemma fold_steps_inGraph [simp]:
  "inGraph (fold incomingStep m s) = inGraph s"
  "inGraph (fold outgoingStep m s) = inGraph s"
  by (rule inGraph_cong; simp)+

lemma forEach_uncollapseIncoming:
  "forEach uncollapseIncoming m s =
     (if \<forall>x\<in>set m. inGraph s (fst x) then Inr (fold incomingStep m s)
      else Inl (TypeError, fold incomingStep (takeWhile (\<lambda>x. inGraph s (fst x)) m) s))"
proof (induction m arbitrary: s)
  case Nil
  show ?case by simp
next
  case (Cons x m)
  show ?case
  proof (cases "inGraph s (fst x)")
    case True
    then have "forEach uncollapseIncoming (x # m) s = forEach uncollapseIncoming m (incomingStep x s)"
      by (simp add: uncollapseIncoming_throws)
    with True show ?thesis by (simp add: Cons.IH)
  next
    case False
    then show ?thesis by (simp add: uncollapseIncoming_throws)
  qed
qed

lemma forEach_uncollapseOutgoing:
  "forEach uncollapseOutgoing m s =
     (if \<forall>x\<in>set m. inGraph s (fst x) then Inr (fold outgoingStep m s)
      else Inl (TypeError, fold outgoingStep (takeWhile (\<lambda>x. inGraph s (fst x)) m) s))"
proof (induction m arbitrary: s)
  case Nil
  show ?case by simp
next
  case (Cons x m)
  show ?case
  proof (cases "inGraph s (fst x)")
    case True
    then have "forEach uncollapseOutgoing (x # m) s = forEach uncollapseOutgoing m (outgoingStep x s)"
      by (simp add: uncollapseOutgoing_throws)
    with True show ?thesis by (simp add: Cons.IH)
  next
    case False
    then show ?thesis by (simp add: uncollapseOutgoing_throws)
  qed
qed


lemma removed_edge_classes:
  assumes "\<not> inGraph s x"
  shows "classes (fold incomingStep m s) x = classes s x"
    and "classes (fold outgoingStep m s) x = classes s x"
proof -
  have "\<not> inGraph (fold incomingStep m s) x \<and> classes (fold incomingStep m s) x = classes s x"
    by (rule fold_keeps[where P = "\<lambda>u. \<not> inGraph u x \<and> classes u x = classes s x"])
       (use assms in \<open>auto simp: classes_incomingStep\<close>)
  then show "classes (fold incomingStep m s) x = classes s x" by simp
  have "\<not> inGraph (fold outgoingStep m s) x \<and> classes (fold outgoingStep m s) x = classes s x"
    by (rule fold_keeps[where P = "\<lambda>u. \<not> inGraph u x \<and> classes u x = classes s x"])
       (use assms in \<open>auto simp: classes_outgoingStep\<close>)
  then show "classes (fold outgoingStep m s) x = classes s x" by simp
qed

lemma uncollapsePattern_throws:
  assumes x: "x \<in> set (incomingEdgeMap s p @ outgoingEdgeMap s p)"
    and n: "\<not> inGraph (restore_eles s (interiorEles s p)) (fst x)"
  shows "\<exists>u. uncollapsePattern s p = Inl (TypeError, u)
           \<and> inGraph u = inGraph (restore_eles s (interiorEles s p))
           \<and> isCollapsed u = isCollapsed s
           \<and> batchCount u = Suc (batchCount s)
           \<and> (\<forall>e. \<not> inGraph (restore_eles s (interiorEles s p)) e \<longrightarrow>
                  source u e = source s e \<and> target u e = target s e \<and> classes u e = classes s e)"
proof -
  let ?r = "startBatch (restore_eles s (interiorEles s p))"
  let ?Q = "\<lambda>u. inGraph u = inGraph (restore_eles s (interiorEles s p))
           \<and> isCollapsed u = isCollapsed s
           \<and> batchCount u = Suc (batchCount s)
           \<and> (\<forall>e. \<not> inGraph (restore_eles s (interiorEles s p)) e \<longrightarrow>
                  source u e = source s e \<and> target u e = target s e \<and> classes u e = classes s e)"
  have i: "?Q (fold incomingStep m ?r)" for m
    by (simp add: removed_edge_untouched removed_edge_classes)
  have o: "?Q (fold outgoingStep m' (fold incomingStep m ?r))" for m m'
    by (simp add: removed_edge_untouched removed_edge_classes)
  let ?mi = "incomingEdgeMap s p" and ?mo = "outgoingEdgeMap s p"
  have r: "restore_eles (startBatch s) (interiorEles (startBatch s) p) = ?r" by simp
  have mi: "incomingEdgeMap ?r p = ?mi" by simp
  show ?thesis
  proof (cases "\<forall>y\<in>set ?mi. inGraph ?r (fst y)")
    case False
    have f: "forEach uncollapseIncoming ?mi ?r =
        Inl (TypeError, fold incomingStep (takeWhile (\<lambda>x. inGraph ?r (fst x)) ?mi) ?r)"
      unfolding forEach_uncollapseIncoming using False by (rule if_not_P)
    have "uncollapsePattern s p =
        Inl (TypeError, fold incomingStep (takeWhile (\<lambda>x. inGraph ?r (fst x)) ?mi) ?r)"
      unfolding uncollapsePattern_def Let_def r mi f by simp
    with i show ?thesis by blast
  next
    case True
    let ?s2 = "fold incomingStep ?mi ?r"
    have f: "forEach uncollapseIncoming ?mi ?r = Inr ?s2"
      unfolding forEach_uncollapseIncoming using True by (rule if_P)
    from True x n have "\<not> (\<forall>y\<in>set ?mo. inGraph ?s2 (fst y))" by auto
    then have g: "forEach uncollapseOutgoing ?mo ?s2 =
        Inl (TypeError, fold outgoingStep (takeWhile (\<lambda>x. inGraph ?s2 (fst x)) ?mo) ?s2)"
      unfolding forEach_uncollapseOutgoing by (rule if_not_P)
    have "outgoingEdgeMap ?s2 p = ?mo" by simp
    then have "uncollapsePattern s p =
        Inl (TypeError, fold outgoingStep (takeWhile (\<lambda>x. inGraph ?s2 (fst x)) ?mo) ?s2)"
      unfolding uncollapsePattern_def Let_def r mi f by (simp add: g)
    with o show ?thesis by blast
  qed
qed

subsection \<open>What uncollapsing does to one boundary edge\<close>










lemma ex_graph_facts:
  "inGraph example_graph ''n''" "inGraph example_graph ''e1''" "inGraph example_graph ''e2''"
  "parent example_graph ''n'' = Some ''Q''" "parent example_graph ''Q'' = Some ''P''"
  "(''e2'', ''c'', ''n'') \<in> set (outgoingEdgeMap example_graph ''P'')"
  "source example_graph ''e2'' = ''c''"
  "\<not> isCollapsed example_graph ''P''" "\<not> isCollapsed example_graph ''Q''"
  "interiorEles example_graph ''P'' = [''e5'', ''Q'', ''c'']"
  by code_simp+

lemma ex_P_collapsed_facts:
  "removed (collapsePattern example_graph ''P'') ''n''"
  "removed (collapsePattern example_graph ''P'') ''e1''"
  "removed (collapsePattern example_graph ''P'') ''e2''"
  "source (collapsePattern example_graph ''P'') ''e2'' = ''P''"
  "isCollapsed (collapsePattern example_graph ''P'') ''P''"
  by code_simp+

text \<open>
  Claim C2 fails on the example. Nothing is collapsed; \<open>P\<close> holds the pattern \<open>Q\<close>, which
  holds the node \<open>n\<close>. Collapsing \<open>P\<close> removes \<open>Q\<close> and with it \<open>n\<close> and the edges at \<open>n\<close>;
  uncollapsing \<open>P\<close> restores the interior elements of \<open>P\<close> only and then throws at \<open>e2\<close>,
  an edge of the outgoing map of \<open>P\<close> that is not in the graph. In the state left \<open>n\<close>,
  \<open>e1\<close> and \<open>e2\<close> are not in the graph, the source of \<open>e2\<close>, recorded with source \<open>c\<close>, is
  still \<open>P\<close>, and \<open>P\<close> is still flagged as collapsed.
\<close>

theorem nested_collapse_uncollapse_loses_elements:
  "inGraph example_graph ''n'' \<and> inGraph example_graph ''e1'' \<and> inGraph example_graph ''e2''
   \<and> parent example_graph ''n'' = Some ''Q'' \<and> parent example_graph ''Q'' = Some ''P''
   \<and> (''e2'', ''c'', ''n'') \<in> set (outgoingEdgeMap example_graph ''P'')
   \<and> source example_graph ''e2'' = ''c''
   \<and> \<not> isCollapsed example_graph ''P'' \<and> \<not> isCollapsed example_graph ''Q''
   \<and> (\<exists>u. uncollapsePattern (collapsePattern example_graph ''P'') ''P'' = Inl (TypeError, u)
         \<and> \<not> inGraph u ''n'' \<and> \<not> inGraph u ''e1'' \<and> \<not> inGraph u ''e2''
         \<and> source u ''e2'' = ''P'' \<and> isCollapsed u ''P'')"
proof -
  let ?t = "collapsePattern example_graph ''P''"
  let ?r = "restore_eles ?t (interiorEles ?t ''P'')"
  have n: "\<not> inGraph ?r ''n''" and e1: "\<not> inGraph ?r ''e1''" and e2: "\<not> inGraph ?r ''e2''"
    by (simp_all add: inGraph_def removed_restore_eles ex_P_collapsed_facts ex_graph_facts)
  have x: "(''e2'', ''c'', ''n'') \<in> set (incomingEdgeMap ?t ''P'' @ outgoingEdgeMap ?t ''P'')"
    by (simp add: ex_graph_facts)
  from e2 have "\<not> inGraph ?r (fst (''e2'', ''c'', ''n''))" by simp
  from uncollapsePattern_throws[OF x this] obtain u
    where u: "uncollapsePattern ?t ''P'' = Inl (TypeError, u)"
      and g: "inGraph u = inGraph ?r" and c: "isCollapsed u = isCollapsed ?t"
      and k: "\<forall>e. \<not> inGraph ?r e \<longrightarrow> source u e = source ?t e \<and> target u e = target ?t e \<and> classes u e = classes ?t e"
    by blast
  from k e2 have "source u ''e2'' = ''P''" by (simp add: ex_P_collapsed_facts)
  with u g c n e1 e2 have "uncollapsePattern ?t ''P'' = Inl (TypeError, u)
         \<and> \<not> inGraph u ''n'' \<and> \<not> inGraph u ''e1'' \<and> \<not> inGraph u ''e2''
         \<and> source u ''e2'' = ''P'' \<and> isCollapsed u ''P''"
    by (simp add: ex_P_collapsed_facts)
  then show ?thesis
    by (simp add: ex_graph_facts)
qed

lemma ex_Y_facts:
  "inGraph example_nested ''f''" "\<not> isCollapsed example_nested ''X''"
  "\<not> isCollapsed example_Y_collapsed ''X''"
  "inGraph example_Y_collapsed ''X''"
  "children example_Y_collapsed ''X'' = [''x'']"
  "interiorEles example_Y_collapsed ''X'' = [''x'']"
  "incomingEdgeMap example_Y_collapsed ''X'' = []"
  "outgoingEdgeMap example_Y_collapsed ''X'' = [(''f'', ''x'', ''y'')]"
  "\<not> inGraph example_Y_collapsed ''f''"
  "\<not> removed example_Y_collapsed ''x''"
  "isEdge example_Y_collapsed ''x'' = False"
  by code_simp+

text \<open>
  Claim C3 fails on the second example. \<open>X\<close> was never collapsed: its flag is clear and
  its child \<open>x\<close> is in the graph. Collapsing the other pattern \<open>Y\<close> removes \<open>Z\<close> and with
  it \<open>y\<close> and the edge \<open>f\<close>, which is in the outgoing map of \<open>X\<close>. \<open>uncollapsePattern\<close> on
  \<open>X\<close> then does not leave the state as it is: it throws a \<open>TypeError\<close> at \<open>f\<close> and leaves
  the batch open.
\<close>

theorem uncollapse_expanded_throws:
  "inGraph example_nested ''f'' \<and> \<not> isCollapsed example_nested ''X''
   \<and> \<not> isCollapsed example_Y_collapsed ''X''
   \<and> inGraph example_Y_collapsed ''X''
   \<and> children example_Y_collapsed ''X'' = [''x'']
   \<and> outgoingEdgeMap example_Y_collapsed ''X'' = [(''f'', ''x'', ''y'')]
   \<and> \<not> inGraph example_Y_collapsed ''f''
   \<and> uncollapsePattern example_Y_collapsed ''X'' = Inl (TypeError, startBatch example_Y_collapsed)
   \<and> batchCount (startBatch example_Y_collapsed) = Suc (batchCount example_Y_collapsed)"
proof -
  let ?s = example_Y_collapsed
  have "restore_eles ?s [''x''] = ?s"
    by (rule restore_eles_fixed) (simp_all add: ex_Y_facts)
  then have "uncollapsePattern ?s ''X'' = Inl (TypeError, startBatch ?s)"
    by (simp add: uncollapsePattern_def Let_def ex_Y_facts uncollapseOutgoing_throws)
  then show ?thesis
    by (simp add: ex_Y_facts)
qed

end
